theory Spec2Isabelle
  imports Complex_Main
begin

section \<open>Tensors\<close>

text \<open>
  A torch tensor is modelled by its shape and by the element found at each multi-index.
  Only the elements at in-range multi-indices carry meaning. Extents are natural numbers;
  the int32/int8/int64 entries of the count and index arrays are integers (no array of this
  module reaches the int32 bounds: entries are 0/1 flags, their sums along one axis and
  positions along one axis).
\<close>

record 'a tensor =
  shape :: "nat list"
  elem :: "nat list \<Rightarrow> 'a"

definition dim :: "'a tensor \<Rightarrow> nat" where
  "dim t = length (shape t)"

text \<open>\<open>in_range sh idx\<close>: \<open>idx\<close> addresses an element of a tensor of shape \<open>sh\<close>.\<close>

fun in_range :: "nat list \<Rightarrow> nat list \<Rightarrow> bool" where
  "in_range [] [] = True"
| "in_range (n # ns) (i # idx) = (i < n \<and> in_range ns idx)"
| "in_range _ _ = False"

text \<open>Two tensors hold the same data: same shape, same element at every in-range index.\<close>

definition tensor_eq :: "'a tensor \<Rightarrow> 'a tensor \<Rightarrow> bool" where
  "tensor_eq s t = (shape s = shape t \<and> (\<forall>idx. in_range (shape s) idx \<longrightarrow> elem s idx = elem t idx))"

text \<open>\<open>torch.zeros(sh)\<close>, \<open>torch.ones(sh)\<close>.\<close>

definition zeros :: "nat list \<Rightarrow> int tensor" where
  "zeros sh = \<lparr>shape = sh, elem = (\<lambda>idx. 0)\<rparr>"

definition ones :: "nat list \<Rightarrow> int tensor" where
  "ones sh = \<lparr>shape = sh, elem = (\<lambda>idx. 1)\<rparr>"

text \<open>\<open>x.unsqueeze(0)\<close>: a new leading axis of extent 1.\<close>

definition unsqueeze0 :: "'a tensor \<Rightarrow> 'a tensor" where
  "unsqueeze0 x = \<lparr>shape = 1 # shape x, elem = (\<lambda>idx. elem x (tl idx))\<rparr>"

text \<open>\<open>t.sum()\<close>: the sum of all elements, axis by axis.\<close>

fun sum_all :: "nat list \<Rightarrow> (nat list \<Rightarrow> int) \<Rightarrow> int" where
  "sum_all [] f = f []"
| "sum_all (n # ns) f = (\<Sum>i\<leftarrow>[0..<n]. sum_all ns (\<lambda>idx. f (i # idx)))"

definition tsum :: "int tensor \<Rightarrow> int" where
  "tsum t = sum_all (shape t) (elem t)"

text \<open>\<open>t.sum(dim=d)\<close>: axis \<open>d\<close> is summed away.\<close>

definition sum_dim :: "nat \<Rightarrow> int tensor \<Rightarrow> int tensor" where
  "sum_dim d t =
     \<lparr>shape = take d (shape t) @ drop (Suc d) (shape t),
      elem = (\<lambda>idx. \<Sum>k\<leftarrow>[0..<shape t ! d]. elem t (take d idx @ k # drop d idx))\<rparr>"

text \<open>
  \<open>torch.argsort(xs, descending=True, stable=True)\<close> on one line of values: the positions
  \<open>0..<length xs\<close>, ordered by decreasing value, positions of equal values in their original
  order. \<open>sort_key\<close> is the library's stable insertion sort.
\<close>

definition argsort_desc_stable :: "int list \<Rightarrow> nat list" where
  "argsort_desc_stable xs = sort_key (\<lambda>i. - (xs ! i)) [0..<length xs]"

text \<open>\<open>torch.argsort(t, dim=d, descending=True, stable=True)\<close>: every line along axis \<open>d\<close> is argsorted.\<close>

definition argsort_dim :: "nat \<Rightarrow> int tensor \<Rightarrow> int tensor" where
  "argsort_dim d t =
     \<lparr>shape = shape t,
      elem = (\<lambda>idx. int (argsort_desc_stable
                 (map (\<lambda>k. elem t (idx[d := k])) [0..<shape t ! d]) ! (idx ! d)))\<rparr>"

text \<open>\<open>t.permute(0, 1, 3, 2)\<close> of a 4-dimensional tensor: the last two axes are swapped.\<close>

definition permute_0132 :: "'a tensor \<Rightarrow> 'a tensor" where
  "permute_0132 t =
     \<lparr>shape = [shape t ! 0, shape t ! 1, shape t ! 3, shape t ! 2],
      elem = (\<lambda>idx. elem t [idx ! 0, idx ! 1, idx ! 3, idx ! 2])\<rparr>"

text \<open>
  Broadcasting of two shapes, aligned at their last axes: extents must be equal, or one of
  them 1. \<open>bcast_index sh idx\<close> is the index read in an operand of shape \<open>sh\<close> for the result
  index \<open>idx\<close>.
\<close>

fun broadcast_rev :: "nat list \<Rightarrow> nat list \<Rightarrow> nat list option" where
  "broadcast_rev [] ys = Some ys"
| "broadcast_rev xs [] = Some xs"
| "broadcast_rev (x # xs) (y # ys) =
     (if x = y \<or> y = 1 then map_option ((#) x) (broadcast_rev xs ys)
      else if x = 1 then map_option ((#) y) (broadcast_rev xs ys)
      else None)"

definition broadcast_shapes :: "nat list \<Rightarrow> nat list \<Rightarrow> nat list option" where
  "broadcast_shapes xs ys = map_option rev (broadcast_rev (rev xs) (rev ys))"

definition bcast_index :: "nat list \<Rightarrow> nat list \<Rightarrow> nat list" where
  "bcast_index sh idx =
     map (\<lambda>(n, i). if n = 1 then 0 else i) (zip sh (drop (length idx - length sh) idx))"

section \<open>Errors\<close>

text \<open>The exceptions of Python and torch that the modelled code can raise.\<close>

datatype error = RuntimeError | AssertionError | ValueError | IndexError
  | ZeroDivisionError | TypeError

definition tensor_add :: "int tensor \<Rightarrow> int tensor \<Rightarrow> error + int tensor" where
  "tensor_add a b =
     (case broadcast_shapes (shape a) (shape b) of
        None \<Rightarrow> Inl RuntimeError
      | Some sh \<Rightarrow> Inr \<lparr>shape = sh,
          elem = (\<lambda>idx. elem a (bcast_index (shape a) idx) + elem b (bcast_index (shape b) idx))\<rparr>)"

section \<open>User functions\<close>

text \<open>
  What \<open>create_block_mask\<close> sees of the function it is given: the parameters that
  \<open>inspect.signature(fn).parameters\<close> lists (of each one only whether
  \<open>param.default == inspect.Parameter.empty\<close> matters), and what a call does. \<open>call4\<close> is the
  call \<open>fn(b, h, m, n)\<close> with four positional arguments, \<open>call5\<close> the call
  \<open>fn(score, b, h, m, n)\<close> at \<open>score = 0\<close>; \<open>None\<close> stands for a signature that cannot bind that
  many positional arguments (Python raises TypeError). Of a returned score only what
  \<open>torch.isneginf\<close> observes is kept.
\<close>

record parameter =
  pname :: string
  default_is_empty :: bool

datatype score = NegInf | NotNegInf

record callable =
  parameters :: "parameter list"
  call4 :: "(nat \<Rightarrow> nat \<Rightarrow> nat \<Rightarrow> nat \<Rightarrow> bool) option"
  call5 :: "(nat \<Rightarrow> nat \<Rightarrow> nat \<Rightarrow> nat \<Rightarrow> score) option"

section \<open>BlockMask\<close>

definition DEFAULT_SPARSE_BLOCK_SIZE :: nat where
  "DEFAULT_SPARSE_BLOCK_SIZE = 128"

record BlockMask =
  full_kv_num_blocks :: "int tensor"
  full_kv_indices :: "int tensor"
  full_q_num_blocks :: "int tensor"
  full_q_indices :: "int tensor"
  partial_kv_num_blocks :: "int tensor"
  partial_kv_indices :: "int tensor"
  partial_q_num_blocks :: "int tensor"
  partial_q_indices :: "int tensor"
  KV_BLOCK_SIZE :: nat
  Q_BLOCK_SIZE :: nat
  mask_fn :: "callable option"

text \<open>\<open>BlockMask.__init__\<close>: the one check, then the fields are stored as given.\<close>

definition BlockMask_init ::
  "int tensor \<Rightarrow> int tensor \<Rightarrow> int tensor \<Rightarrow> int tensor \<Rightarrow>
   int tensor \<Rightarrow> int tensor \<Rightarrow> int tensor \<Rightarrow> int tensor \<Rightarrow>
   nat \<Rightarrow> nat \<Rightarrow> callable option \<Rightarrow> error + BlockMask" where
  "BlockMask_init fkn fki fqn fqi pkn pki pqn pqi kvb qb mf =
     (if dim fki < 2 \<or> dim pki < 2 then Inl RuntimeError
      else Inr \<lparr>full_kv_num_blocks = fkn, full_kv_indices = fki,
                full_q_num_blocks = fqn, full_q_indices = fqi,
                partial_kv_num_blocks = pkn, partial_kv_indices = pki,
                partial_q_num_blocks = pqn, partial_q_indices = pqi,
                KV_BLOCK_SIZE = kvb, Q_BLOCK_SIZE = qb, mask_fn = mf\<rparr>)"

text \<open>
  \<open>BlockMask.shape\<close>. The starred unpacking of \<open>full_kv_indices.shape\<close> needs two axes at
  least (ValueError otherwise), \<open>shape[-1]\<close> needs one (IndexError otherwise).
\<close>

definition bm_shape :: "BlockMask \<Rightarrow> error + nat list" where
  "bm_shape bm =
     (if dim (full_kv_indices bm) < 2 then Inl ValueError
      else if dim (full_kv_num_blocks bm) = 0 \<or> dim (full_q_num_blocks bm) = 0 then Inl IndexError
      else
        let batch_dims = butlast (butlast (shape (full_kv_indices bm)));
            q_length = last (shape (full_kv_num_blocks bm)) * KV_BLOCK_SIZE bm;
            kv_length = last (shape (full_q_num_blocks bm)) * Q_BLOCK_SIZE bm
        in Inr (batch_dims @ [q_length, kv_length]))"

text \<open>\<open>BlockMask.numel\<close>: the product of the shape.\<close>

definition numel :: "BlockMask \<Rightarrow> error + nat" where
  "numel bm = (case bm_shape bm of Inl e \<Rightarrow> Inl e | Inr sh \<Rightarrow> Inr (prod_list sh))"

text \<open>
  \<open>BlockMask.sparsity\<close>. Python's \<open>/\<close> on two ints raises ZeroDivisionError for a zero
  divisor; the float quotient is modelled by the exact quotient.
\<close>

definition sparsity :: "BlockMask \<Rightarrow> error + real" where
  "sparsity bm =
     (case numel bm of
        Inl e \<Rightarrow> Inl e
      | Inr total_size \<Rightarrow>
          let computed_size =
                (tsum (full_kv_num_blocks bm) + tsum (partial_kv_num_blocks bm))
                  * int (KV_BLOCK_SIZE bm) * int (Q_BLOCK_SIZE bm)
          in if total_size = 0 then Inl ZeroDivisionError
             else let dense_ratio = real_of_int computed_size / real total_size
                  in Inr (100 * (1 - dense_ratio)))"

text \<open>
  \<open>_create_empty_block_mask(query, key, value)\<close>: one tile that covers the whole query and
  key extents, read at \<open>size()[-2]\<close> (IndexError below two axes).
\<close>

definition create_empty_block_mask :: "'a tensor \<Rightarrow> 'a tensor \<Rightarrow> 'a tensor \<Rightarrow> error + BlockMask" where
  "create_empty_block_mask query key val =
     (if dim key < 2 \<or> dim query < 2 then Inl IndexError
      else
        let kv_len = shape key ! (dim key - 2);
            q_len = shape query ! (dim query - 2)
        in BlockMask_init (ones [1, 1, 1]) (zeros [1, 1, 1, 1]) (ones [1, 1, 1]) (zeros [1, 1, 1, 1])
             (zeros [1, 1, 1]) (zeros [1, 1, 1, 1]) (zeros [1, 1, 1]) (zeros [1, 1, 1, 1])
             kv_len q_len None)"

text \<open>
  \<open>BlockMask.to_dense\<close>. \<open>create_dense_one\<close> handles one (rows, columns) slice: entry \<open>k\<close> of
  row \<open>r\<close> of the index array counts when \<open>k\<close> is below the row's count, every other entry is
  redirected to the extra column \<open>num_cols\<close>; a 1 is written at each resulting column and the
  extra column is cut off. A write at column \<open>v\<close> of the \<open>num_cols + 1\<close> columns follows
  torch's indexing: negative \<open>v\<close> counts from the end, \<open>v\<close> out of range raises.
\<close>

definition wrap_index :: "int \<Rightarrow> nat \<Rightarrow> nat option" where
  "wrap_index v n =
     (if 0 \<le> v \<and> v < int n then Some (nat v)
      else if - int n \<le> v \<and> v < 0 then Some (nat (v + int n))
      else None)"

definition valid_index :: "nat \<Rightarrow> int tensor \<Rightarrow> int tensor \<Rightarrow> nat \<Rightarrow> nat \<Rightarrow> int" where
  "valid_index num_cols kv_num_blocks kv_indices r k =
     (if int k < elem kv_num_blocks [r] then elem kv_indices [r, k] else int num_cols)"

definition create_dense_one :: "nat \<Rightarrow> nat \<Rightarrow> int tensor \<Rightarrow> int tensor \<Rightarrow> int tensor" where
  "create_dense_one num_rows num_cols kv_num_blocks kv_indices =
     \<lparr>shape = [num_rows, num_cols],
      elem = (\<lambda>idx.
        if list_ex (\<lambda>k. wrap_index (valid_index num_cols kv_num_blocks kv_indices (idx ! 0) k)
                          (Suc num_cols) = Some (idx ! 1)) [0..<num_cols]
        then 1 else 0)\<rparr>"

text \<open>\<open>t[i1, ..., in]\<close>: the slice below a tuple of leading indices.\<close>

definition select :: "nat list \<Rightarrow> 'a tensor \<Rightarrow> 'a tensor" where
  "select bi t = \<lparr>shape = drop (length bi) (shape t), elem = (\<lambda>idx. elem t (bi @ idx))\<rparr>"

text \<open>All multi-indices of a shape, in row-major order.\<close>

fun all_indices :: "nat list \<Rightarrow> nat list list" where
  "all_indices [] = [[]]"
| "all_indices (n # ns) = concat (map (\<lambda>i. map ((#) i) (all_indices ns)) [0..<n])"

text \<open>
  \<open>create_dense_batched\<close> is \<open>create_dense_one\<close> under one \<open>vmap\<close> per batch axis, that is,
  applied to the slices below every tuple of batch indices. The model covers count and index
  arrays shaped as this module builds them (counts: batch axes and rows; indices: batch axes,
  rows, columns); any other combination of shapes is reported as RuntimeError.
\<close>

definition to_dense :: "BlockMask \<Rightarrow> error + int tensor" where
  "to_dense bm =
     (if dim (full_kv_num_blocks bm) = 0 \<or> dim (full_q_num_blocks bm) = 0 then Inl IndexError
      else
        let num_rows = last (shape (full_kv_num_blocks bm));
            num_cols = last (shape (full_q_num_blocks bm));
            batch_dims = butlast (shape (full_kv_num_blocks bm))
        in case tensor_add (full_kv_num_blocks bm) (partial_kv_num_blocks bm) of
             Inl e \<Rightarrow> Inl e
           | Inr kv_num_blocks \<Rightarrow>
               let kv_indices = full_kv_indices bm in
               if \<not> (shape kv_num_blocks = batch_dims @ [num_rows]
                     \<and> shape kv_indices = batch_dims @ [num_rows, num_cols])
               then Inl RuntimeError
               else if list_ex (\<lambda>bi. list_ex (\<lambda>r. list_ex (\<lambda>k.
                         wrap_index (valid_index num_cols (select bi kv_num_blocks)
                                       (select bi kv_indices) r k) (Suc num_cols) = None)
                       [0..<num_cols]) [0..<num_rows]) (all_indices batch_dims)
               then Inl IndexError
               else Inr \<lparr>shape = batch_dims @ [num_rows, num_cols],
                         elem = (\<lambda>idx.
                           let bi = take (length batch_dims) idx in
                           elem (create_dense_one num_rows num_cols
                                   (select bi kv_num_blocks) (select bi kv_indices))
                                (drop (length batch_dims) idx))\<rparr>)"

section \<open>Dense mask to tile grids\<close>

text \<open>\<open>_broadcast_to_dim\<close>: leading axes of extent 1 are added until the rank is reached.\<close>

function broadcast_to_dim :: "'a tensor \<Rightarrow> nat \<Rightarrow> 'a tensor" where
  "broadcast_to_dim x d = (if dim x < d then broadcast_to_dim (unsqueeze0 x) d else x)"
  by pat_completeness auto
termination
  by (relation "measure (\<lambda>(x, d). d - dim x)") (auto simp: dim_def unsqueeze0_def)

declare broadcast_to_dim.simps [simp del]

text \<open>
  \<open>mask.view(B, H, Q // Qb, Qb, KV // KVb, KVb)\<close> of a contiguous (B, H, Q, KV) tensor: the
  element at \<open>[b, h, r, i, c, j]\<close> is the element at \<open>[b, h, r * Qb + i, c * KVb + j]\<close>.
\<close>

definition view_blocks :: "nat \<Rightarrow> nat \<Rightarrow> 'a tensor \<Rightarrow> 'a tensor" where
  "view_blocks Qb KVb x =
     \<lparr>shape = [shape x ! 0, shape x ! 1, shape x ! 2 div Qb, Qb, shape x ! 3 div KVb, KVb],
      elem = (\<lambda>idx. elem x [idx ! 0, idx ! 1, idx ! 2 * Qb + idx ! 3, idx ! 4 * KVb + idx ! 5])\<rparr>"

text \<open>\<open>mask.permute(0, 1, 2, 4, 3, 5)\<close>.\<close>

definition permute_012435 :: "'a tensor \<Rightarrow> 'a tensor" where
  "permute_012435 t =
     \<lparr>shape = [shape t ! 0, shape t ! 1, shape t ! 2, shape t ! 4, shape t ! 3, shape t ! 5],
      elem = (\<lambda>idx. elem t [idx ! 0, idx ! 1, idx ! 2, idx ! 4, idx ! 3, idx ! 5])\<rparr>"

text \<open>\<open>mask.sum(dim=[-2, -1])\<close> of a boolean tensor: the number of true elements over the last two axes.\<close>

definition sum_last2 :: "bool tensor \<Rightarrow> int tensor" where
  "sum_last2 t =
     \<lparr>shape = butlast (butlast (shape t)),
      elem = (\<lambda>idx. \<Sum>i\<leftarrow>[0..<last (butlast (shape t))]. \<Sum>j\<leftarrow>[0..<last (shape t)].
                 of_bool (elem t (idx @ [i, j])))\<rparr>"

text \<open>An elementwise operation, and \<open>x.to(dtype=torch.int8)\<close> on a boolean tensor.\<close>

definition tmap :: "('a \<Rightarrow> 'b) \<Rightarrow> 'a tensor \<Rightarrow> 'b tensor" where
  "tmap f t = \<lparr>shape = shape t, elem = (\<lambda>idx. f (elem t idx))\<rparr>"

definition to_int :: "bool tensor \<Rightarrow> int tensor" where
  "to_int t = tmap of_bool t"

text \<open>
  The value \<open>mask_block_sum\<close> of \<open>_convert_mask_to_block_mask\<close>: view, permute, sum over
  the two within-tile axes.
\<close>

definition mask_block_sum :: "nat \<Rightarrow> nat \<Rightarrow> bool tensor \<Rightarrow> int tensor" where
  "mask_block_sum Qb KVb x = sum_last2 (permute_012435 (view_blocks Qb KVb x))"

text \<open>
  \<open>_convert_mask_to_block_mask\<close>. The mask is a boolean tensor, so the dtype assertion holds.
  Unpacking \<open>mask.shape\<close> into four names raises ValueError above four axes; \<open>%\<close> raises
  ZeroDivisionError on a zero block size; the two assertions raise AssertionError.
\<close>

definition convert_mask_to_block_mask ::
  "bool tensor \<Rightarrow> nat \<Rightarrow> nat \<Rightarrow> callable option \<Rightarrow> error + (int tensor \<times> int tensor option)" where
  "convert_mask_to_block_mask mask0 KVb Qb mfn =
     (let x = broadcast_to_dim mask0 4 in
      if dim x \<noteq> 4 then Inl ValueError
      else
        let Q = shape x ! 2; KV = shape x ! 3 in
        if Qb = 0 then Inl ZeroDivisionError
        else if Q mod Qb \<noteq> 0 then Inl AssertionError
        else if KVb = 0 then Inl ZeroDivisionError
        else if KV mod KVb \<noteq> 0 then Inl AssertionError
        else
          let mbs = mask_block_sum Qb KVb x in
          (case mfn of
             Some _ \<Rightarrow>
               let full_block_sum = int (Qb * KVb);
                   full_blocks = tmap (\<lambda>s. s = full_block_sum) mbs;
                   partial_blocks = tmap (\<lambda>s. 0 < s \<and> s < full_block_sum) mbs
               in Inr (to_int full_blocks, Some (to_int partial_blocks))
           | None \<Rightarrow>
               let full_blocks = tmap (\<lambda>s. 0 < s) mbs
               in Inr (to_int full_blocks, None)))"

section \<open>Tile grid to compressed arrays\<close>

text \<open>
  \<open>create_sparse_block_from_block_mask_inner\<close>: counts and argsorted positions along the
  columns (axis 3) and along the rows (axis 2, then transposed). \<open>sum(dim=3)\<close> raises
  IndexError below four axes, \<open>permute(0, 1, 3, 2)\<close> raises RuntimeError above four.
\<close>

definition create_sparse_block_from_block_mask_inner ::
  "int tensor \<Rightarrow> error + (int tensor \<times> int tensor \<times> int tensor \<times> int tensor)" where
  "create_sparse_block_from_block_mask_inner block_mask =
     (if dim block_mask < 4 then Inl IndexError
      else if dim block_mask > 4 then Inl RuntimeError
      else
        let kv_num_blocks = sum_dim 3 block_mask;
            kv_indices = argsort_dim 3 block_mask;
            q_num_blocks = sum_dim 2 block_mask;
            q_indices = permute_0132 (argsort_dim 2 block_mask)
        in Inr (kv_num_blocks, kv_indices, q_num_blocks, q_indices))"

text \<open>\<open>_create_sparse_block_from_block_mask\<close>.\<close>

definition create_sparse_block_from_block_mask ::
  "int tensor \<times> int tensor option \<Rightarrow> callable option \<Rightarrow> nat \<Rightarrow> nat \<Rightarrow> error + BlockMask" where
  "create_sparse_block_from_block_mask block_mask mfn KVb Qb =
     (let full_blocks = fst block_mask; partial_blocks = snd block_mask in
      case create_sparse_block_from_block_mask_inner full_blocks of
        Inl e \<Rightarrow> Inl e
      | Inr (f0, f1, f2, f3) \<Rightarrow>
          (case (case partial_blocks of
                   Some pb \<Rightarrow> create_sparse_block_from_block_mask_inner pb
                 | None \<Rightarrow> Inr (zeros [1, 1, 1], zeros [1, 1, 1, 1], zeros [1, 1, 1], zeros [1, 1, 1, 1])) of
             Inl e \<Rightarrow> Inl e
           | Inr (p0, p1, p2, p3) \<Rightarrow> BlockMask_init f0 f1 f2 f3 p0 p1 p2 p3 KVb Qb mfn))"

section \<open>The mask builder\<close>

text \<open>
  \<open>_create_mask_from_score_mod\<close> and \<open>_create_mask_from_mask_fn\<close>: the function is
  evaluated at every (b, h, m, n) below the extents; a score that is minus infinity gives
  False. The device and the \<open>_compiled\<close> switch do not change the values and are left out.
\<close>

definition isneginf :: "score \<Rightarrow> bool" where
  "isneginf s = (s = NegInf)"

text \<open>
  The four nested \<open>vmap\<close>s over \<open>arange(B)\<close>, \<open>arange(H)\<close>, \<open>arange(M)\<close>, \<open>arange(N)\<close>: the
  tensor of shape (B, H, M, N) whose element at \<open>[b, h, m, n]\<close> is the function's value there.
\<close>

definition vmap_grid :: "(nat \<Rightarrow> nat \<Rightarrow> nat \<Rightarrow> nat \<Rightarrow> 'a) \<Rightarrow> nat \<Rightarrow> nat \<Rightarrow> nat \<Rightarrow> nat \<Rightarrow> 'a tensor" where
  "vmap_grid f B H M N =
     \<lparr>shape = [B, H, M, N], elem = (\<lambda>idx. f (idx ! 0) (idx ! 1) (idx ! 2) (idx ! 3))\<rparr>"

definition create_mask_from_score_mod ::
  "callable \<Rightarrow> nat \<Rightarrow> nat \<Rightarrow> nat \<Rightarrow> nat \<Rightarrow> error + bool tensor" where
  "create_mask_from_score_mod score_mod B H M N =
     (case call5 score_mod of
        None \<Rightarrow> Inl TypeError
      | Some f \<Rightarrow>
          let out = vmap_grid f B H M N
          in Inr (tmap (\<lambda>s. if isneginf s then False else True) out))"

definition create_mask_from_mask_fn ::
  "callable \<Rightarrow> nat \<Rightarrow> nat \<Rightarrow> nat \<Rightarrow> nat \<Rightarrow> error + bool tensor" where
  "create_mask_from_mask_fn mfn B H M N =
     (case call4 mfn of
        None \<Rightarrow> Inl TypeError
      | Some f \<Rightarrow> Inr (vmap_grid f B H M N))"

text \<open>
  \<open>_create_block_mask_inner\<close>. The call of \<open>_create_sparse_block_from_block_mask\<close> passes
  the tile grids and the mask function only, so the BlockMask records the default block sizes.
\<close>

definition create_block_mask_inner ::
  "callable \<Rightarrow> nat \<Rightarrow> nat \<Rightarrow> nat \<Rightarrow> nat \<Rightarrow> nat \<Rightarrow> nat \<Rightarrow> bool \<Rightarrow> error + BlockMask" where
  "create_block_mask_inner fn B H M N KVb Qb is_score_mod =
     (let mfn = (if is_score_mod then None else Some fn) in
      case (if is_score_mod then create_mask_from_score_mod fn B H M N
            else create_mask_from_mask_fn fn B H M N) of
        Inl e \<Rightarrow> Inl e
      | Inr mask_tensor \<Rightarrow>
          (case convert_mask_to_block_mask mask_tensor KVb Qb mfn of
             Inl e \<Rightarrow> Inl e
           | Inr block_mask \<Rightarrow>
               create_sparse_block_from_block_mask block_mask mfn
                 DEFAULT_SPARSE_BLOCK_SIZE DEFAULT_SPARSE_BLOCK_SIZE))"

text \<open>
  \<open>create_block_mask\<close>: a function with exactly five parameters without a default is a
  score function; every other function is taken as a mask function.
\<close>

definition create_block_mask ::
  "callable \<Rightarrow> nat \<Rightarrow> nat \<Rightarrow> nat \<Rightarrow> nat \<Rightarrow> nat \<Rightarrow> nat \<Rightarrow> error + BlockMask" where
  "create_block_mask fn B H M N KVb Qb =
     (let is_score_mod = (length (filter default_is_empty (parameters fn)) = 5)
      in create_block_mask_inner fn B H M N KVb Qb is_score_mod)"

section \<open>Vocabulary of the properties\<close>

text \<open>
  The boolean-count of the tile in tile row \<open>r\<close> and tile column \<open>c\<close> of a dense mask: the number
  of true elements in the rectangle of \<open>Qb\<close> query positions and \<open>KVb\<close> key positions it covers.
\<close>

definition tile_count :: "bool tensor \<Rightarrow> nat \<Rightarrow> nat \<Rightarrow> nat \<Rightarrow> nat \<Rightarrow> nat \<Rightarrow> nat \<Rightarrow> int" where
  "tile_count x Qb KVb b h r c =
     (\<Sum>i\<leftarrow>[0..<Qb]. \<Sum>j\<leftarrow>[0..<KVb]. of_bool (elem x [b, h, r * Qb + i, c * KVb + j]))"

text \<open>
  Two BlockMasks hold the same data: the eight arrays agree in shape and in every in-range
  entry, and the block sizes and the retained mask function are equal.
\<close>

definition BlockMask_eq :: "BlockMask \<Rightarrow> BlockMask \<Rightarrow> bool" where
  "BlockMask_eq a b =
     (tensor_eq (full_kv_num_blocks a) (full_kv_num_blocks b)
      \<and> tensor_eq (full_kv_indices a) (full_kv_indices b)
      \<and> tensor_eq (full_q_num_blocks a) (full_q_num_blocks b)
      \<and> tensor_eq (full_q_indices a) (full_q_indices b)
      \<and> tensor_eq (partial_kv_num_blocks a) (partial_kv_num_blocks b)
      \<and> tensor_eq (partial_kv_indices a) (partial_kv_indices b)
      \<and> tensor_eq (partial_q_num_blocks a) (partial_q_num_blocks b)
      \<and> tensor_eq (partial_q_indices a) (partial_q_indices b)
      \<and> KV_BLOCK_SIZE a = KV_BLOCK_SIZE b \<and> Q_BLOCK_SIZE a = Q_BLOCK_SIZE b
      \<and> mask_fn a = mask_fn b)"

text \<open>
  The contract of \<open>torch.argsort(xs, descending=True, stable=True)\<close> on one line of values:
  the result lists every position of the line once; a position with a larger value stands
  before every position with a smaller value; positions with equal values stand in
  increasing order.
\<close>

definition stable_argsort_desc :: "int list \<Rightarrow> nat list \<Rightarrow> bool" where
  "stable_argsort_desc xs p =
     (length p = length xs \<and> set p = {0..<length xs}
      \<and> sorted_wrt (\<lambda>i j. xs ! j < xs ! i \<or> (xs ! i = xs ! j \<and> i < j)) p)"

section \<open>Concrete inputs\<close>

text \<open>
  Query and key tensors of a cross-attention call: 128 query positions, 256 key positions,
  64 features. Only their shapes are read.
\<close>

definition query_128 :: "unit tensor" where
  "query_128 = \<lparr>shape = [1, 1, 128, 64], elem = (\<lambda>idx. ())\<rparr>"

definition key_256 :: "unit tensor" where
  "key_256 = \<lparr>shape = [1, 1, 256, 64], elem = (\<lambda>idx. ())\<rparr>"

text \<open>A dense mask with 200 query positions and 256 key positions.\<close>

definition mask_200 :: "bool tensor" where
  "mask_200 = \<lparr>shape = [1, 1, 200, 256], elem = (\<lambda>idx. True)\<rparr>"

text \<open>A dense mask of two rows and four columns, true at the last three columns of row 0 only.\<close>

definition mask_2x4 :: "bool tensor" where
  "mask_2x4 = \<lparr>shape = [1, 1, 2, 4], elem = (\<lambda>idx. idx ! 2 = 0 \<and> 1 \<le> idx ! 3)\<rparr>"

text \<open>
  A tile grid of two rows and three columns, rows \<open>[0, 1, 1]\<close> and \<open>[1, 0, 0]\<close>, and a second
  tensor with the same shape and the same entries (they differ beyond the shape only).
\<close>

definition grid_2x3 :: "int tensor" where
  "grid_2x3 = \<lparr>shape = [1, 1, 2, 3],
                elem = (\<lambda>idx. if idx ! 2 = 0 then (if idx ! 3 = 0 then 0 else 1)
                                else (if idx ! 3 = 0 then 1 else 0))\<rparr>"

definition grid_2x3' :: "int tensor" where
  "grid_2x3' = \<lparr>shape = [1, 1, 2, 3],
                 elem = (\<lambda>idx. if idx ! 2 < 2 \<and> idx ! 3 < 3
                                 then elem grid_2x3 idx else 7)\<rparr>"

text \<open>
  The causal mask function \<open>def causal(b, h, q_idx, kv_idx): return q_idx >= kv_idx\<close>, its
  dense mask over 256 query and 256 key positions, and the BlockMask built from it with
  block size 128.
\<close>

definition causal_fn :: callable where
  "causal_fn =
     \<lparr>parameters = [\<lparr>pname = ''b'', default_is_empty = True\<rparr>,
                    \<lparr>pname = ''h'', default_is_empty = True\<rparr>,
                    \<lparr>pname = ''q_idx'', default_is_empty = True\<rparr>,
                    \<lparr>pname = ''kv_idx'', default_is_empty = True\<rparr>],
      call4 = Some (\<lambda>b h q_idx kv_idx. kv_idx \<le> q_idx),
      call5 = None\<rparr>"

definition causal_mask :: "bool tensor" where
  "causal_mask = vmap_grid (\<lambda>b h q_idx kv_idx. kv_idx \<le> q_idx) 1 1 256 256"

definition causal_block_mask :: "error + BlockMask" where
  "causal_block_mask = create_block_mask causal_fn 1 1 256 256 128 128"

text \<open>
  The mask function \<open>def diagonal(b, h, q_idx, kv_idx): return q_idx == kv_idx\<close>, its dense
  mask over 256 query and 256 key positions, and the BlockMask built from it with block
  size 128.
\<close>

definition diagonal_fn :: callable where
  "diagonal_fn =
     \<lparr>parameters = [\<lparr>pname = ''b'', default_is_empty = True\<rparr>,
                    \<lparr>pname = ''h'', default_is_empty = True\<rparr>,
                    \<lparr>pname = ''q_idx'', default_is_empty = True\<rparr>,
                    \<lparr>pname = ''kv_idx'', default_is_empty = True\<rparr>],
      call4 = Some (\<lambda>b h q_idx kv_idx. q_idx = kv_idx),
      call5 = None\<rparr>"

definition diagonal_mask :: "bool tensor" where
  "diagonal_mask = vmap_grid (\<lambda>b h q_idx kv_idx. q_idx = kv_idx) 1 1 256 256"

definition diagonal_block_mask :: "error + BlockMask" where
  "diagonal_block_mask = create_block_mask diagonal_fn 1 1 256 256 128 128"

text \<open>
  The dense mask of the causal mask function over 128 query and 128 key positions (a single
  tile, PARTIAL), and the BlockMask built from it.
\<close>

definition causal_tile_mask :: "bool tensor" where
  "causal_tile_mask = vmap_grid (\<lambda>b h q_idx kv_idx. kv_idx \<le> q_idx) 1 1 128 128"

definition causal_tile_block_mask :: "error + BlockMask" where
  "causal_tile_block_mask = create_block_mask causal_fn 1 1 128 128 128 128"

text \<open>
  A BlockMask handed to the constructor directly: one tile row of one tile, with a count
  of 5.
\<close>

definition overfull_block_mask :: "error + BlockMask" where
  "overfull_block_mask =
     BlockMask_init \<lparr>shape = [1, 1, 1], elem = (\<lambda>idx. 5)\<rparr> (zeros [1, 1, 1, 1])
       \<lparr>shape = [1, 1, 1], elem = (\<lambda>idx. 5)\<rparr> (zeros [1, 1, 1, 1])
       (zeros [1, 1, 1]) (zeros [1, 1, 1, 1]) (zeros [1, 1, 1]) (zeros [1, 1, 1, 1])
       128 128 None"

text \<open>
  A mask function with three required parameters and a fourth with a default,
  \<open>def f(b, h, q_idx, kv_idx=0): return q_idx >= kv_idx\<close>: it can be called with four
  positional arguments, not with five. And the score function
  \<open>def _causal(score, b, h, token_q, token_kv): return torch.where(token_q >= token_kv, score, float("-inf"))\<close>
  of the module, which takes five positional arguments.
\<close>

definition three_required_fn :: callable where
  "three_required_fn =
     \<lparr>parameters = [\<lparr>pname = ''b'', default_is_empty = True\<rparr>,
                    \<lparr>pname = ''h'', default_is_empty = True\<rparr>,
                    \<lparr>pname = ''q_idx'', default_is_empty = True\<rparr>,
                    \<lparr>pname = ''kv_idx'', default_is_empty = False\<rparr>],
      call4 = Some (\<lambda>b h q_idx kv_idx. kv_idx \<le> q_idx),
      call5 = None\<rparr>"

definition causal_score_mod :: callable where
  "causal_score_mod =
     \<lparr>parameters = [\<lparr>pname = ''score'', default_is_empty = True\<rparr>,
                    \<lparr>pname = ''batch'', default_is_empty = True\<rparr>,
                    \<lparr>pname = ''head'', default_is_empty = True\<rparr>,
                    \<lparr>pname = ''token_q'', default_is_empty = True\<rparr>,
                    \<lparr>pname = ''token_kv'', default_is_empty = True\<rparr>],
      call4 = None,
      call5 = Some (\<lambda>b h token_q token_kv. if token_kv \<le> token_q then NotNegInf else NegInf)\<rparr>"

text \<open>A partial grid to go with \<open>grid_2x3\<close>: rows \<open>[1, 0, 0]\<close> and \<open>[0, 0, 1]\<close>.\<close>

definition partial_2x3 :: "int tensor" where
  "partial_2x3 = \<lparr>shape = [1, 1, 2, 3],
                   elem = (\<lambda>idx. if idx ! 2 = 0 then (if idx ! 3 = 0 then 1 else 0)
                                   else (if idx ! 3 = 2 then 1 else 0))\<rparr>"

text \<open>
  The BlockMask built from the module's causal score function \<open>_causal\<close> over 256 query and
  256 key positions with block size 128. Its dense mask is the causal mask as well.
\<close>

definition causal_score_block_mask :: "error + BlockMask" where
  "causal_score_block_mask = create_block_mask causal_score_mod 1 1 256 256 128 128"

section \<open>The constructor and the shape query\<close>

text \<open>
  C10. The constructor checks the rank of \<open>full_kv_indices\<close> and of \<open>partial_kv_indices\<close>
  only: it raises when one of the two has fewer than two axes, and otherwise stores all
  arrays as given, whatever the rank of the transposed-view index arrays
  \<open>full_q_indices\<close> and \<open>partial_q_indices\<close>.
\<close>

theorem BlockMask_init_rank_check:
  "(dim fki < 2 \<or> dim pki < 2 \<longrightarrow>
      BlockMask_init fkn fki fqn fqi pkn pki pqn pqi kvb qb mf = Inl RuntimeError) \<and>
   (2 \<le> dim fki \<and> 2 \<le> dim pki \<longrightarrow>
      (\<exists>bm. BlockMask_init fkn fki fqn fqi pkn pki pqn pqi kvb qb mf = Inr bm
         \<and> full_q_indices bm = fqi \<and> partial_q_indices bm = pqi))"
  by (simp add: BlockMask_init_def)

theorem BlockMask_init_rank_check_witness:
  "dim (zeros [4]) < 2
   \<and> BlockMask_init (zeros [1, 1, 1]) (zeros [4]) (zeros [1, 1, 1]) (zeros [1, 1, 1, 1])
        (zeros [1, 1, 1]) (zeros [1, 1, 1, 1]) (zeros [1, 1, 1]) (zeros [1, 1, 1, 1])
        128 128 None = Inl RuntimeError
   \<and> dim (zeros []) < 2 \<and> dim (zeros [7]) < 2
   \<and> (\<exists>bm. BlockMask_init (zeros [1, 1, 1]) (zeros [1, 1, 1, 1]) (zeros [1, 1, 1]) (zeros [])
              (zeros [1, 1, 1]) (zeros [1, 1, 1, 1]) (zeros [1, 1, 1]) (zeros [7])
              128 128 None = Inr bm
         \<and> full_q_indices bm = zeros [] \<and> partial_q_indices bm = zeros [7])"
proof -
  have d: "dim (zeros [4]) < 2" "dim (zeros []) < 2" "dim (zeros [7]) < 2"
    "2 \<le> dim (zeros [1, 1, 1, 1])"
    by (simp_all add: dim_def zeros_def)
  show ?thesis
    using d
      BlockMask_init_rank_check[where fki = "zeros [4]" and pki = "zeros [1, 1, 1, 1]"
        and fkn = "zeros [1, 1, 1]" and fqn = "zeros [1, 1, 1]" and fqi = "zeros [1, 1, 1, 1]"
        and pkn = "zeros [1, 1, 1]" and pqn = "zeros [1, 1, 1]" and pqi = "zeros [1, 1, 1, 1]"
        and kvb = 128 and qb = 128 and mf = None]
      BlockMask_init_rank_check[where fki = "zeros [1, 1, 1, 1]" and pki = "zeros [1, 1, 1, 1]"
        and fkn = "zeros [1, 1, 1]" and fqn = "zeros [1, 1, 1]" and fqi = "zeros []"
        and pkn = "zeros [1, 1, 1]" and pqn = "zeros [1, 1, 1]" and pqi = "zeros [7]"
        and kvb = 128 and qb = 128 and mf = None]
    by blast
qed

text \<open>
  C1. The shape query is meant to return the batch extents followed by
  Q = (number of query tile rows) * Q_BLOCK_SIZE and KV = (number of key tile rows) * KV_BLOCK_SIZE.
  The code multiplies the number of query tile rows by KV_BLOCK_SIZE and the number of key
  tile rows by Q_BLOCK_SIZE. On the default mask of a call with 128 query positions and 256
  key positions (one tile, Q_BLOCK_SIZE = 128, KV_BLOCK_SIZE = 256) it returns
  (1, 1, 256, 128), where the stated rule gives (1, 1, 128, 256).
\<close>

theorem shape_swaps_block_sizes:
  "\<exists>bm. create_empty_block_mask query_128 key_256 key_256 = Inr bm
     \<and> Q_BLOCK_SIZE bm = 128 \<and> KV_BLOCK_SIZE bm = 256
     \<and> last (shape (full_kv_num_blocks bm)) = 1 \<and> last (shape (full_q_num_blocks bm)) = 1
     \<and> bm_shape bm = Inr [1, 1, 256, 128]
     \<and> bm_shape bm \<noteq> Inr [1, 1, last (shape (full_kv_num_blocks bm)) * Q_BLOCK_SIZE bm,
                                  last (shape (full_q_num_blocks bm)) * KV_BLOCK_SIZE bm]"
  by (simp add: create_empty_block_mask_def query_128_def key_256_def dim_def
      BlockMask_init_def zeros_def ones_def bm_shape_def)

section \<open>The conversion pipeline\<close>

subsection \<open>Sums of flags\<close>

lemma sum_list_upt_bounds:
  fixes f :: "nat \<Rightarrow> int"
  assumes "\<And>i. i < n \<Longrightarrow> 0 \<le> f i \<and> f i \<le> m"
  shows "0 \<le> (\<Sum>i\<leftarrow>[0..<n]. f i) \<and> (\<Sum>i\<leftarrow>[0..<n]. f i) \<le> int n * m"
  using assms
proof (induction n)
  case 0
  then show ?case by simp
next
  case (Suc n)
  have "0 \<le> f n \<and> f n \<le> m" using Suc.prems by simp
  moreover have "0 \<le> (\<Sum>i\<leftarrow>[0..<n]. f i) \<and> (\<Sum>i\<leftarrow>[0..<n]. f i) \<le> int n * m"
    using Suc by simp
  ultimately show ?case by (simp add: algebra_simps)
qed

lemma sum_list_upt_max_iff:
  fixes f :: "nat \<Rightarrow> int"
  assumes "\<And>i. i < n \<Longrightarrow> 0 \<le> f i \<and> f i \<le> m"
  shows "(\<Sum>i\<leftarrow>[0..<n]. f i) = int n * m \<longleftrightarrow> (\<forall>i<n. f i = m)"
  using assms
proof (induction n)
  case 0
  then show ?case by simp
next
  case (Suc n)
  have fn: "0 \<le> f n \<and> f n \<le> m" using Suc.prems by simp
  have b: "(\<Sum>i\<leftarrow>[0..<n]. f i) \<le> int n * m"
    using sum_list_upt_bounds[of n f m] Suc.prems by simp
  have ih: "(\<Sum>i\<leftarrow>[0..<n]. f i) = int n * m \<longleftrightarrow> (\<forall>i<n. f i = m)"
    using Suc by simp
  have "(\<Sum>i\<leftarrow>[0..<Suc n]. f i) = int (Suc n) * m
        \<longleftrightarrow> (\<Sum>i\<leftarrow>[0..<n]. f i) = int n * m \<and> f n = m"
    using fn b by (auto simp: algebra_simps)
  then show ?case using ih by (auto simp: less_Suc_eq)
qed

lemma sum_list_upt_zero_iff:
  fixes f :: "nat \<Rightarrow> int"
  assumes "\<And>i. i < n \<Longrightarrow> 0 \<le> f i"
  shows "(\<Sum>i\<leftarrow>[0..<n]. f i) = 0 \<longleftrightarrow> (\<forall>i<n. f i = 0)"
  using assms
proof (induction n)
  case 0
  then show ?case by simp
next
  case (Suc n)
  have fn: "0 \<le> f n" using Suc.prems by simp
  have b: "0 \<le> (\<Sum>i\<leftarrow>[0..<n]. f i)"
    using Suc.prems by (intro sum_list_nonneg) auto
  have ih: "(\<Sum>i\<leftarrow>[0..<n]. f i) = 0 \<longleftrightarrow> (\<forall>i<n. f i = 0)"
    using Suc by simp
  have "(\<Sum>i\<leftarrow>[0..<Suc n]. f i) = 0 \<longleftrightarrow> (\<Sum>i\<leftarrow>[0..<n]. f i) = 0 \<and> f n = 0"
    using fn b by auto
  then show ?case using ih by (auto simp: less_Suc_eq)
qed

lemma sum_list_upt_cong:
  fixes f g :: "nat \<Rightarrow> int"
  assumes "\<And>i. i < n \<Longrightarrow> f i = g i"
  shows "(\<Sum>i\<leftarrow>[0..<n]. f i) = (\<Sum>i\<leftarrow>[0..<n]. g i)"
  using assms by (intro arg_cong[where f=sum_list] map_cong) auto

lemma sum_list_flags_count:
  fixes f :: "nat \<Rightarrow> int"
  assumes "\<And>i. i < n \<Longrightarrow> f i = 0 \<or> f i = 1"
  shows "(\<Sum>i\<leftarrow>[0..<n]. f i) = int (length (filter (\<lambda>i. f i = 1) [0..<n]))"
  using assms
proof (induction n)
  case 0
  then show ?case by simp
next
  case (Suc n)
  have "f n = 0 \<or> f n = 1" using Suc.prems by simp
  moreover have "(\<Sum>i\<leftarrow>[0..<n]. f i) = int (length (filter (\<lambda>i. f i = 1) [0..<n]))"
    using Suc by simp
  ultimately show ?case by auto
qed

subsection \<open>sum_all\<close>

lemma sum_all_cong:
  assumes "\<And>idx. in_range sh idx \<Longrightarrow> f idx = g idx"
  shows "sum_all sh f = sum_all sh g"
  using assms
proof (induction sh arbitrary: f g)
  case Nil
  then show ?case by simp
next
  case (Cons n ns)
  have "\<And>i. i < n \<Longrightarrow> sum_all ns (\<lambda>idx. f (i # idx)) = sum_all ns (\<lambda>idx. g (i # idx))"
  proof -
    fix i assume "i < n"
    then have "\<And>idx. in_range ns idx \<Longrightarrow> f (i # idx) = g (i # idx)"
      using Cons.prems by simp
    then show "sum_all ns (\<lambda>idx. f (i # idx)) = sum_all ns (\<lambda>idx. g (i # idx))"
      by (rule Cons.IH)
  qed
  then show ?case
    using sum_list_upt_cong[of n "\<lambda>i. sum_all ns (\<lambda>idx. f (i # idx))" "\<lambda>i. sum_all ns (\<lambda>idx. g (i # idx))"]
    by simp
qed

lemma sum_all_bounds:
  assumes "\<And>idx. in_range sh idx \<Longrightarrow> 0 \<le> f idx \<and> f idx \<le> 1"
  shows "0 \<le> sum_all sh f \<and> sum_all sh f \<le> int (prod_list sh)"
  using assms
proof (induction sh arbitrary: f)
  case Nil
  then show ?case by simp
next
  case (Cons n ns)
  have "\<And>i. i < n \<Longrightarrow> 0 \<le> sum_all ns (\<lambda>idx. f (i # idx))
      \<and> sum_all ns (\<lambda>idx. f (i # idx)) \<le> int (prod_list ns)"
  proof -
    fix i assume "i < n"
    then have "\<And>idx. in_range ns idx \<Longrightarrow> 0 \<le> f (i # idx) \<and> f (i # idx) \<le> 1"
      using Cons.prems by simp
    then show "0 \<le> sum_all ns (\<lambda>idx. f (i # idx))
      \<and> sum_all ns (\<lambda>idx. f (i # idx)) \<le> int (prod_list ns)"
      by (rule Cons.IH)
  qed
  from sum_list_upt_bounds[of n "\<lambda>i. sum_all ns (\<lambda>idx. f (i # idx))" "int (prod_list ns)", OF this]
  show ?case by simp
qed

lemma in_range_Cons_iff: "in_range (n # ns) idx \<longleftrightarrow> (\<exists>i rest. idx = i # rest \<and> i < n \<and> in_range ns rest)"
  by (cases idx) auto

lemma sum_all_max_iff:
  assumes "\<And>idx. in_range sh idx \<Longrightarrow> 0 \<le> f idx \<and> f idx \<le> 1"
  shows "sum_all sh f = int (prod_list sh) \<longleftrightarrow> (\<forall>idx. in_range sh idx \<longrightarrow> f idx = 1)"
  using assms
proof (induction sh arbitrary: f)
  case Nil
  show ?case
  proof
    assume "sum_all [] f = int (prod_list [])"
    then have "f [] = 1" by simp
    then show "\<forall>idx. in_range [] idx \<longrightarrow> f idx = 1"
      by (metis in_range.elims(2) list.distinct(1))
  next
    assume "\<forall>idx. in_range [] idx \<longrightarrow> f idx = 1"
    then show "sum_all [] f = int (prod_list [])" by simp
  qed
next
  case (Cons n ns)
  have b: "\<And>i. i < n \<Longrightarrow> 0 \<le> sum_all ns (\<lambda>idx. f (i # idx))
      \<and> sum_all ns (\<lambda>idx. f (i # idx)) \<le> int (prod_list ns)"
  proof -
    fix i assume "i < n"
    then have "\<And>idx. in_range ns idx \<Longrightarrow> 0 \<le> f (i # idx) \<and> f (i # idx) \<le> 1"
      using Cons.prems by simp
    then show "0 \<le> sum_all ns (\<lambda>idx. f (i # idx))
      \<and> sum_all ns (\<lambda>idx. f (i # idx)) \<le> int (prod_list ns)"
      by (rule sum_all_bounds)
  qed
  have ih: "\<And>i. i < n \<Longrightarrow> sum_all ns (\<lambda>idx. f (i # idx)) = int (prod_list ns)
      \<longleftrightarrow> (\<forall>idx. in_range ns idx \<longrightarrow> f (i # idx) = 1)"
  proof -
    fix i assume "i < n"
    then have "\<And>idx. in_range ns idx \<Longrightarrow> 0 \<le> f (i # idx) \<and> f (i # idx) \<le> 1"
      using Cons.prems by simp
    then show "sum_all ns (\<lambda>idx. f (i # idx)) = int (prod_list ns)
      \<longleftrightarrow> (\<forall>idx. in_range ns idx \<longrightarrow> f (i # idx) = 1)"
      by (rule Cons.IH)
  qed
  have "sum_all (n # ns) f = int (prod_list (n # ns))
      \<longleftrightarrow> (\<forall>i<n. sum_all ns (\<lambda>idx. f (i # idx)) = int (prod_list ns))"
    using sum_list_upt_max_iff[of n "\<lambda>i. sum_all ns (\<lambda>idx. f (i # idx))" "int (prod_list ns)", OF b]
    by simp
  also have "\<dots> \<longleftrightarrow> (\<forall>i<n. \<forall>idx. in_range ns idx \<longrightarrow> f (i # idx) = 1)"
    using ih by auto
  also have "\<dots> \<longleftrightarrow> (\<forall>idx. in_range (n # ns) idx \<longrightarrow> f idx = 1)"
    by (auto simp: in_range_Cons_iff)
  finally show ?case .
qed

lemma sum_all_add:
  "sum_all sh (\<lambda>idx. f idx + g idx) = sum_all sh f + sum_all sh g"
proof (induction sh arbitrary: f g)
  case Nil
  then show ?case by simp
next
  case (Cons n ns)
  show ?case by (simp add: Cons.IH sum_list_addf)
qed

lemma sum_all_snoc:
  "sum_all (sh @ [n]) f = sum_all sh (\<lambda>idx. \<Sum>k\<leftarrow>[0..<n]. f (idx @ [k]))"
proof (induction sh arbitrary: f)
  case Nil
  then show ?case by simp
next
  case (Cons m ms)
  show ?case by (simp add: Cons.IH)
qed

subsection \<open>Index ranges\<close>

lemma in_range_Nil_iff: "in_range [] idx \<longleftrightarrow> idx = []"
  by (cases idx) auto

lemma in_range_3: "in_range [B, H, R] idx \<longleftrightarrow> (\<exists>b h r. idx = [b, h, r] \<and> b < B \<and> h < H \<and> r < R)"
  by (auto simp: in_range_Cons_iff in_range_Nil_iff)

lemma in_range_4:
  "in_range [B, H, R, C] idx \<longleftrightarrow> (\<exists>b h r c. idx = [b, h, r, c] \<and> b < B \<and> h < H \<and> r < R \<and> c < C)"
  by (auto simp: in_range_Cons_iff in_range_Nil_iff)

subsection \<open>Stable argsort of a line of flags\<close>

lemma sorted_two_keys:
  fixes f :: "'a \<Rightarrow> int"
  assumes "sorted (map f ys)" and "\<forall>y\<in>set ys. f y = a \<or> f y = b" and "a < b"
  shows "ys = filter (\<lambda>y. f y = a) ys @ filter (\<lambda>y. f y = b) ys"
  using assms
proof (induction ys)
  case Nil
  then show ?case by simp
next
  case (Cons y ys)
  have ih: "ys = filter (\<lambda>y. f y = a) ys @ filter (\<lambda>y. f y = b) ys"
    using Cons by simp
  show ?case
  proof (cases "f y = a")
    case True
    then show ?thesis using ih \<open>a < b\<close> by simp
  next
    case False
    then have fy: "f y = b" using Cons.prems by simp
    have "\<forall>z\<in>set ys. f z = b"
    proof
      fix z assume z: "z \<in> set ys"
      then have "b \<le> f z" using Cons.prems(1) fy by auto
      moreover have "f z = a \<or> f z = b" using Cons.prems(2) z by simp
      ultimately show "f z = b" using \<open>a < b\<close> by auto
    qed
    then have "filter (\<lambda>y. f y = a) ys = []" and "filter (\<lambda>y. f y = b) ys = ys"
      using \<open>a < b\<close> by (auto simp: filter_empty_conv filter_id_conv)
    then show ?thesis using fy \<open>a < b\<close> by simp
  qed
qed

lemma argsort_flags:
  assumes "\<forall>i<length xs. xs ! i = 0 \<or> xs ! i = 1"
  shows "argsort_desc_stable xs =
           filter (\<lambda>i. xs ! i = 1) [0..<length xs] @ filter (\<lambda>i. xs ! i = 0) [0..<length xs]"
proof -
  let ?f = "\<lambda>i. - (xs ! i)"
  let ?ys = "sort_key ?f [0..<length xs]"
  have s: "sorted (map ?f ?ys)" by (rule sorted_sort_key)
  have k: "\<forall>y\<in>set ?ys. ?f y = -1 \<or> ?f y = 0" using assms by auto
  have "?ys = filter (\<lambda>y. ?f y = -1) ?ys @ filter (\<lambda>y. ?f y = 0) ?ys"
    by (rule sorted_two_keys[OF s k]) simp
  also have "filter (\<lambda>y. ?f y = -1) ?ys = filter (\<lambda>y. ?f y = -1) [0..<length xs]"
    by (rule sort_key_stable)
  also have "filter (\<lambda>y. ?f y = 0) ?ys = filter (\<lambda>y. ?f y = 0) [0..<length xs]"
    by (rule sort_key_stable)
  finally show ?thesis by (simp add: argsort_desc_stable_def)
qed

lemma argsort_flags_map:
  assumes "\<forall>k<n. f k = 0 \<or> f k = 1"
  shows "argsort_desc_stable (map f [0..<n]) =
           filter (\<lambda>k. f k = 1) [0..<n] @ filter (\<lambda>k. f k = 0) [0..<n]"
proof -
  have "argsort_desc_stable (map f [0..<n]) =
          filter (\<lambda>i. map f [0..<n] ! i = 1) [0..<n] @ filter (\<lambda>i. map f [0..<n] ! i = 0) [0..<n]"
    using argsort_flags[of "map f [0..<n]"] assms by simp
  moreover have "filter (\<lambda>i. map f [0..<n] ! i = 1) [0..<n] = filter (\<lambda>k. f k = 1) [0..<n]"
    by (rule filter_cong) auto
  moreover have "filter (\<lambda>i. map f [0..<n] ! i = 0) [0..<n] = filter (\<lambda>k. f k = 0) [0..<n]"
    by (rule filter_cong) auto
  ultimately show ?thesis by simp
qed

lemma length_argsort: "length (argsort_desc_stable xs) = length xs"
  by (simp add: argsort_desc_stable_def)

lemma argsort_cong:
  assumes "\<forall>k<n. f k = g k"
  shows "argsort_desc_stable (map f [0..<n]) = argsort_desc_stable (map g [0..<n])"
proof -
  have "map f [0..<n] = map g [0..<n]" using assms by simp
  then show ?thesis by (rule arg_cong)
qed

subsection \<open>Tile counts\<close>

lemma tile_count_bounds:
  "0 \<le> tile_count x Qb KVb b h r c \<and> tile_count x Qb KVb b h r c \<le> int (Qb * KVb)"
proof -
  have inner: "\<And>i. 0 \<le> (\<Sum>j\<leftarrow>[0..<KVb]. of_bool (elem x [b, h, r * Qb + i, c * KVb + j]) :: int)
      \<and> (\<Sum>j\<leftarrow>[0..<KVb]. of_bool (elem x [b, h, r * Qb + i, c * KVb + j]) :: int) \<le> int KVb * 1"
    by (rule sum_list_upt_bounds) simp
  have "0 \<le> tile_count x Qb KVb b h r c \<and> tile_count x Qb KVb b h r c \<le> int Qb * (int KVb * 1)"
    unfolding tile_count_def by (rule sum_list_upt_bounds) (use inner in blast)
  then show ?thesis by simp
qed

lemma tile_count_full_iff:
  "tile_count x Qb KVb b h r c = int (Qb * KVb)
     \<longleftrightarrow> (\<forall>i<Qb. \<forall>j<KVb. elem x [b, h, r * Qb + i, c * KVb + j])"
proof -
  let ?g = "\<lambda>i j. of_bool (elem x [b, h, r * Qb + i, c * KVb + j]) :: int"
  have inner_b: "\<And>i. 0 \<le> (\<Sum>j\<leftarrow>[0..<KVb]. ?g i j) \<and> (\<Sum>j\<leftarrow>[0..<KVb]. ?g i j) \<le> int KVb * 1"
    by (rule sum_list_upt_bounds) simp
  have inner_max: "\<And>i. (\<Sum>j\<leftarrow>[0..<KVb]. ?g i j) = int KVb * 1 \<longleftrightarrow> (\<forall>j<KVb. ?g i j = 1)"
    by (rule sum_list_upt_max_iff) simp
  have "tile_count x Qb KVb b h r c = int Qb * (int KVb * 1)
      \<longleftrightarrow> (\<forall>i<Qb. (\<Sum>j\<leftarrow>[0..<KVb]. ?g i j) = int KVb * 1)"
    unfolding tile_count_def by (rule sum_list_upt_max_iff) (use inner_b in blast)
  also have "\<dots> \<longleftrightarrow> (\<forall>i<Qb. \<forall>j<KVb. ?g i j = 1)"
    using inner_max by simp
  finally show ?thesis by simp
qed

lemma tile_count_zero_iff:
  "tile_count x Qb KVb b h r c = 0
     \<longleftrightarrow> (\<forall>i<Qb. \<forall>j<KVb. \<not> elem x [b, h, r * Qb + i, c * KVb + j])"
proof -
  let ?g = "\<lambda>i j. of_bool (elem x [b, h, r * Qb + i, c * KVb + j]) :: int"
  have inner_b: "\<And>i. 0 \<le> (\<Sum>j\<leftarrow>[0..<KVb]. ?g i j)"
    by (rule sum_list_nonneg) auto
  have inner_z: "\<And>i. (\<Sum>j\<leftarrow>[0..<KVb]. ?g i j) = 0 \<longleftrightarrow> (\<forall>j<KVb. ?g i j = 0)"
    by (rule sum_list_upt_zero_iff) simp
  have "tile_count x Qb KVb b h r c = 0 \<longleftrightarrow> (\<forall>i<Qb. (\<Sum>j\<leftarrow>[0..<KVb]. ?g i j) = 0)"
    unfolding tile_count_def by (rule sum_list_upt_zero_iff) (use inner_b in blast)
  also have "\<dots> \<longleftrightarrow> (\<forall>i<Qb. \<forall>j<KVb. ?g i j = 0)"
    using inner_z by simp
  finally show ?thesis by simp
qed

lemma tile_count_pos_iff:
  "0 < tile_count x Qb KVb b h r c
     \<longleftrightarrow> (\<exists>i<Qb. \<exists>j<KVb. elem x [b, h, r * Qb + i, c * KVb + j])"
  using tile_count_zero_iff[of x Qb KVb b h r c] tile_count_bounds[of x Qb KVb b h r c]
  by auto

subsection \<open>Dense mask to tile grids\<close>

lemma dim_broadcast_to_dim: "dim (broadcast_to_dim x d) = max (dim x) d"
proof (induction x d rule: broadcast_to_dim.induct)
  case (1 x d)
  show ?case
  proof (cases "dim x < d")
    case True
    then have "dim (broadcast_to_dim x d) = max (dim (unsqueeze0 x)) d"
      using "1.IH" by (subst broadcast_to_dim.simps) simp
    moreover have "dim (unsqueeze0 x) = Suc (dim x)" by (simp add: dim_def unsqueeze0_def)
    ultimately show ?thesis using True by simp
  next
    case False
    then show ?thesis by (subst broadcast_to_dim.simps) simp
  qed
qed

lemma broadcast_to_dim_id: "d \<le> dim x \<Longrightarrow> broadcast_to_dim x d = x"
  by (subst broadcast_to_dim.simps) simp

lemma shape_mask_block_sum:
  "shape x = [B, H, Q, KV] \<Longrightarrow> shape (mask_block_sum Qb KVb x) = [B, H, Q div Qb, KV div KVb]"
  by (simp add: mask_block_sum_def sum_last2_def permute_012435_def view_blocks_def)

lemma elem_mask_block_sum:
  "elem (mask_block_sum Qb KVb x) [b, h, r, c] = tile_count x Qb KVb b h r c"
  by (simp add: mask_block_sum_def sum_last2_def permute_012435_def view_blocks_def tile_count_def)

lemma shape_to_int_tmap: "shape (to_int (tmap p t)) = shape t"
  by (simp add: to_int_def tmap_def)

lemma elem_to_int_tmap: "elem (to_int (tmap p t)) idx = of_bool (p (elem t idx))"
  by (simp add: to_int_def tmap_def)

lemma convert_None:
  assumes "shape (broadcast_to_dim mask0 4) = [B, H, Q, KV]" and "0 < Qb" and "0 < KVb"
    and "Q mod Qb = 0" and "KV mod KVb = 0"
  shows "convert_mask_to_block_mask mask0 KVb Qb None =
           Inr (to_int (tmap (\<lambda>s. 0 < s) (mask_block_sum Qb KVb (broadcast_to_dim mask0 4))), None)"
  using assms by (simp add: convert_mask_to_block_mask_def Let_def dim_def)

lemma convert_Some:
  assumes "shape (broadcast_to_dim mask0 4) = [B, H, Q, KV]" and "0 < Qb" and "0 < KVb"
    and "Q mod Qb = 0" and "KV mod KVb = 0"
  shows "convert_mask_to_block_mask mask0 KVb Qb (Some fn) =
           Inr (to_int (tmap (\<lambda>s. s = int (Qb * KVb)) (mask_block_sum Qb KVb (broadcast_to_dim mask0 4))),
                Some (to_int (tmap (\<lambda>s. 0 < s \<and> s < int (Qb * KVb))
                        (mask_block_sum Qb KVb (broadcast_to_dim mask0 4)))))"
  using assms by (simp add: convert_mask_to_block_mask_def Let_def dim_def)

text \<open>
  C4. A dense mask whose query extent is not a multiple of Q_BLOCK_SIZE, or whose key extent
  is not a multiple of KV_BLOCK_SIZE, is rejected by the conversion: the assertion fails
  before anything is reshaped (the failure the specification calls ShapeError is Python's
  AssertionError).
\<close>

theorem convert_rejects_indivisible:
  assumes "shape (broadcast_to_dim mask0 4) = [B, H, Q, KV]" and "0 < Qb" and "0 < KVb"
    and "Q mod Qb \<noteq> 0 \<or> KV mod KVb \<noteq> 0"
  shows "convert_mask_to_block_mask mask0 KVb Qb mfn = Inl AssertionError"
  using assms by (auto simp: convert_mask_to_block_mask_def Let_def dim_def)

theorem convert_rejects_indivisible_witness:
  "convert_mask_to_block_mask mask_200 128 128 None = Inl AssertionError"
proof -
  have "broadcast_to_dim mask_200 4 = mask_200"
    by (rule broadcast_to_dim_id) (simp add: dim_def mask_200_def)
  then have s: "shape (broadcast_to_dim mask_200 4) = [1, 1, 200, 256]"
    by (simp add: mask_200_def)
  show ?thesis
    by (rule convert_rejects_indivisible[OF s]) simp_all
qed

text \<open>
  C7. Without a mask function (only a score function was given) the conversion returns no
  partial grid, and the full grid marks exactly the tiles whose boolean-count is positive:
  every tile with a true element is FULL.
\<close>

theorem score_mod_tiles_full:
  assumes "shape (broadcast_to_dim mask0 4) = [B, H, Q, KV]" and "0 < Qb" and "0 < KVb"
    and "Q mod Qb = 0" and "KV mod KVb = 0"
  shows "\<exists>full_blocks.
           convert_mask_to_block_mask mask0 KVb Qb None = Inr (full_blocks, None)
           \<and> shape full_blocks = [B, H, Q div Qb, KV div KVb]
           \<and> (\<forall>b<B. \<forall>h<H. \<forall>r<Q div Qb. \<forall>c<KV div KVb.
                 elem full_blocks [b, h, r, c] =
                   (if 0 < tile_count (broadcast_to_dim mask0 4) Qb KVb b h r c then 1 else 0))"
  using assms
  by (simp add: convert_None shape_to_int_tmap elem_to_int_tmap shape_mask_block_sum
      elem_mask_block_sum)

theorem score_mod_tiles_full_witness:
  "\<exists>full_blocks.
     convert_mask_to_block_mask mask_2x4 2 1 None = Inr (full_blocks, None)
     \<and> shape full_blocks = [1, 1, 2, 2]
     \<and> elem full_blocks [0, 0, 0, 0] = 1 \<and> elem full_blocks [0, 0, 0, 1] = 1
     \<and> elem full_blocks [0, 0, 1, 0] = 0 \<and> elem full_blocks [0, 0, 1, 1] = 0"
proof -
  have bid: "broadcast_to_dim mask_2x4 4 = mask_2x4"
    by (rule broadcast_to_dim_id) (simp add: dim_def mask_2x4_def)
  then have s: "shape (broadcast_to_dim mask_2x4 4) = [1, 1, 2, 4]"
    by (simp add: mask_2x4_def)
  have c: "tile_count mask_2x4 1 2 0 0 0 0 = 1" "tile_count mask_2x4 1 2 0 0 0 1 = 2"
    "tile_count mask_2x4 1 2 0 0 1 0 = 0" "tile_count mask_2x4 1 2 0 0 1 1 = 0"
    by (simp_all add: tile_count_def mask_2x4_def upt_rec)
  from score_mod_tiles_full[OF s, of 1 2]
  obtain fb where fb: "convert_mask_to_block_mask mask_2x4 2 1 None = Inr (fb, None)"
    "shape fb = [1, 1, 2 div 1, 4 div 2]"
    and e: "\<forall>b<1. \<forall>h<1. \<forall>r<2 div 1. \<forall>c<4 div 2. elem fb [b, h, r, c] =
          (if 0 < tile_count (broadcast_to_dim mask_2x4 4) 1 2 b h r c then 1 else 0)"
    by auto
  have "elem fb [0, 0, 0, 0] = 1" "elem fb [0, 0, 0, 1] = 1"
    "elem fb [0, 0, 1, 0] = 0" "elem fb [0, 0, 1, 1] = 0"
    using e c by (simp_all add: bid)
  then show ?thesis using fb by simp
qed

subsection \<open>Tile grid to compressed arrays\<close>

lemma length_4_shape: "length sh = 4 \<Longrightarrow> \<exists>B H R C. sh = [B, H, R, C]"
  by (auto simp: eval_nat_numeral length_Suc_conv)

lemma inner_eq:
  "shape g = [B, H, R, C] \<Longrightarrow>
   create_sparse_block_from_block_mask_inner g =
     Inr (sum_dim 3 g, argsort_dim 3 g, sum_dim 2 g, permute_0132 (argsort_dim 2 g))"
  by (simp add: create_sparse_block_from_block_mask_inner_def dim_def)

lemma shape_compressed:
  assumes "shape g = [B, H, R, C]"
  shows "shape (sum_dim 3 g) = [B, H, R]" and "shape (argsort_dim 3 g) = [B, H, R, C]"
    and "shape (sum_dim 2 g) = [B, H, C]" and "shape (permute_0132 (argsort_dim 2 g)) = [B, H, C, R]"
  using assms by (simp_all add: sum_dim_def argsort_dim_def permute_0132_def eval_nat_numeral)

lemma elem_sum_dim_3:
  "shape g = [B, H, R, C] \<Longrightarrow>
   elem (sum_dim 3 g) [b, h, r] = (\<Sum>k\<leftarrow>[0..<C]. elem g [b, h, r, k])"
  by (simp add: sum_dim_def eval_nat_numeral)

lemma elem_sum_dim_2:
  "shape g = [B, H, R, C] \<Longrightarrow>
   elem (sum_dim 2 g) [b, h, c] = (\<Sum>k\<leftarrow>[0..<R]. elem g [b, h, k, c])"
  by (simp add: sum_dim_def eval_nat_numeral)

lemma elem_argsort_dim_3:
  "shape g = [B, H, R, C] \<Longrightarrow>
   elem (argsort_dim 3 g) [b, h, r, k] =
     int (argsort_desc_stable (map (\<lambda>c. elem g [b, h, r, c]) [0..<C]) ! k)"
  by (simp add: argsort_dim_def eval_nat_numeral)

lemma elem_argsort_dim_2:
  "shape g = [B, H, R, C] \<Longrightarrow>
   elem (permute_0132 (argsort_dim 2 g)) [b, h, c, k] =
     int (argsort_desc_stable (map (\<lambda>r. elem g [b, h, r, c]) [0..<R]) ! k)"
  by (simp add: argsort_dim_def permute_0132_def eval_nat_numeral)

lemma map_nth_int:
  "length xs = n \<Longrightarrow> map (\<lambda>k. int (xs ! k)) [0..<n] = map int xs"
  by (auto simp: list_eq_iff_nth_eq)

text \<open>
  C8. For a tile grid of flags, every row of the output, in the forward view (rows of the
  grid) and in the transposed view (columns of the grid): the count is the number of set
  tiles of the row; the index sequence lists the positions of the set tiles, in increasing
  order, and after them the positions of the unset tiles; so the set tiles occupy exactly
  the leading count entries, in their original relative order.
\<close>

theorem compressor_rows:
  assumes "shape g = [B, H, R, C]"
    and "\<forall>b<B. \<forall>h<H. \<forall>r<R. \<forall>c<C. elem g [b, h, r, c] = 0 \<or> elem g [b, h, r, c] = 1"
  shows "\<exists>kv_num_blocks kv_indices q_num_blocks q_indices.
           create_sparse_block_from_block_mask_inner g =
             Inr (kv_num_blocks, kv_indices, q_num_blocks, q_indices)
           \<and> shape kv_num_blocks = [B, H, R] \<and> shape kv_indices = [B, H, R, C]
           \<and> shape q_num_blocks = [B, H, C] \<and> shape q_indices = [B, H, C, R]
           \<and> (\<forall>b<B. \<forall>h<H. \<forall>r<R.
                 elem kv_num_blocks [b, h, r]
                   = int (length (filter (\<lambda>c. elem g [b, h, r, c] = 1) [0..<C]))
                 \<and> map (\<lambda>k. elem kv_indices [b, h, r, k]) [0..<C]
                   = map int (filter (\<lambda>c. elem g [b, h, r, c] = 1) [0..<C]
                              @ filter (\<lambda>c. elem g [b, h, r, c] = 0) [0..<C]))
           \<and> (\<forall>b<B. \<forall>h<H. \<forall>c<C.
                 elem q_num_blocks [b, h, c]
                   = int (length (filter (\<lambda>r. elem g [b, h, r, c] = 1) [0..<R]))
                 \<and> map (\<lambda>k. elem q_indices [b, h, c, k]) [0..<R]
                   = map int (filter (\<lambda>r. elem g [b, h, r, c] = 1) [0..<R]
                              @ filter (\<lambda>r. elem g [b, h, r, c] = 0) [0..<R]))"
proof -
  have fwd: "elem (sum_dim 3 g) [b, h, r]
               = int (length (filter (\<lambda>c. elem g [b, h, r, c] = 1) [0..<C]))
             \<and> map (\<lambda>k. elem (argsort_dim 3 g) [b, h, r, k]) [0..<C]
               = map int (filter (\<lambda>c. elem g [b, h, r, c] = 1) [0..<C]
                          @ filter (\<lambda>c. elem g [b, h, r, c] = 0) [0..<C])"
    if "b < B" "h < H" "r < R" for b h r
  proof -
    have flags: "\<forall>c<C. elem g [b, h, r, c] = 0 \<or> elem g [b, h, r, c] = 1"
      using assms(2) that by simp
    have cnt: "(\<Sum>k\<leftarrow>[0..<C]. elem g [b, h, r, k])
                 = int (length (filter (\<lambda>c. elem g [b, h, r, c] = 1) [0..<C]))"
      by (rule sum_list_flags_count) (use flags in simp)
    have srt: "argsort_desc_stable (map (\<lambda>c. elem g [b, h, r, c]) [0..<C])
                 = filter (\<lambda>c. elem g [b, h, r, c] = 1) [0..<C]
                   @ filter (\<lambda>c. elem g [b, h, r, c] = 0) [0..<C]"
      by (rule argsort_flags_map) (use flags in simp)
    have "map (\<lambda>k. elem (argsort_dim 3 g) [b, h, r, k]) [0..<C]
            = map int (argsort_desc_stable (map (\<lambda>c. elem g [b, h, r, c]) [0..<C]))"
      by (simp only: elem_argsort_dim_3[OF assms(1)] map_nth_int length_argsort length_map length_upt diff_zero)
    then show ?thesis
      using cnt srt by (simp only: elem_sum_dim_3[OF assms(1)])
  qed
  have bwd: "elem (sum_dim 2 g) [b, h, c]
               = int (length (filter (\<lambda>r. elem g [b, h, r, c] = 1) [0..<R]))
             \<and> map (\<lambda>k. elem (permute_0132 (argsort_dim 2 g)) [b, h, c, k]) [0..<R]
               = map int (filter (\<lambda>r. elem g [b, h, r, c] = 1) [0..<R]
                          @ filter (\<lambda>r. elem g [b, h, r, c] = 0) [0..<R])"
    if "b < B" "h < H" "c < C" for b h c
  proof -
    have flags: "\<forall>r<R. elem g [b, h, r, c] = 0 \<or> elem g [b, h, r, c] = 1"
      using assms(2) that by simp
    have cnt: "(\<Sum>k\<leftarrow>[0..<R]. elem g [b, h, k, c])
                 = int (length (filter (\<lambda>r. elem g [b, h, r, c] = 1) [0..<R]))"
      by (rule sum_list_flags_count) (use flags in simp)
    have srt: "argsort_desc_stable (map (\<lambda>r. elem g [b, h, r, c]) [0..<R])
                 = filter (\<lambda>r. elem g [b, h, r, c] = 1) [0..<R]
                   @ filter (\<lambda>r. elem g [b, h, r, c] = 0) [0..<R]"
      by (rule argsort_flags_map) (use flags in simp)
    have "map (\<lambda>k. elem (permute_0132 (argsort_dim 2 g)) [b, h, c, k]) [0..<R]
            = map int (argsort_desc_stable (map (\<lambda>r. elem g [b, h, r, c]) [0..<R]))"
      by (simp only: elem_argsort_dim_2[OF assms(1)] map_nth_int length_argsort length_map length_upt diff_zero)
    then show ?thesis
      using cnt srt by (simp only: elem_sum_dim_2[OF assms(1)])
  qed
  show ?thesis
    using inner_eq[OF assms(1)] shape_compressed[OF assms(1)] fwd bwd by blast
qed


lemma shape_grid_2x3: "shape grid_2x3 = [1, 1, 2, 3]"
  by (simp add: grid_2x3_def)

lemma flags_grid_2x3:
  "\<forall>b<1. \<forall>h<1. \<forall>r<2. \<forall>c<3. elem grid_2x3 [b, h, r, c] = 0 \<or> elem grid_2x3 [b, h, r, c] = 1"
  by (auto simp: grid_2x3_def less_Suc_eq eval_nat_numeral)

theorem compressor_rows_witness:
  "\<exists>kv_num_blocks kv_indices q_num_blocks q_indices.
     create_sparse_block_from_block_mask_inner grid_2x3 =
       Inr (kv_num_blocks, kv_indices, q_num_blocks, q_indices)
     \<and> elem kv_num_blocks [0, 0, 0] = 2
     \<and> map (\<lambda>k. elem kv_indices [0, 0, 0, k]) [0..<3] = [1, 2, 0]
     \<and> elem kv_num_blocks [0, 0, 1] = 1
     \<and> map (\<lambda>k. elem kv_indices [0, 0, 1, k]) [0..<3] = [0, 1, 2]
     \<and> elem q_num_blocks [0, 0, 0] = 1
     \<and> map (\<lambda>k. elem q_indices [0, 0, 0, k]) [0..<2] = [1, 0]"
proof -
  from compressor_rows[OF shape_grid_2x3 flags_grid_2x3]
  obtain kvn kvi qn qi where
    r: "create_sparse_block_from_block_mask_inner grid_2x3 = Inr (kvn, kvi, qn, qi)"
    and f: "\<forall>b<1. \<forall>h<1. \<forall>r<2.
          elem kvn [b, h, r] = int (length (filter (\<lambda>c. elem grid_2x3 [b, h, r, c] = 1) [0..<3]))
          \<and> map (\<lambda>k. elem kvi [b, h, r, k]) [0..<3]
            = map int (filter (\<lambda>c. elem grid_2x3 [b, h, r, c] = 1) [0..<3]
                       @ filter (\<lambda>c. elem grid_2x3 [b, h, r, c] = 0) [0..<3])"
    and t: "\<forall>b<1. \<forall>h<1. \<forall>c<3.
          elem qn [b, h, c] = int (length (filter (\<lambda>r. elem grid_2x3 [b, h, r, c] = 1) [0..<2]))
          \<and> map (\<lambda>k. elem qi [b, h, c, k]) [0..<2]
            = map int (filter (\<lambda>r. elem grid_2x3 [b, h, r, c] = 1) [0..<2]
                       @ filter (\<lambda>r. elem grid_2x3 [b, h, r, c] = 0) [0..<2])"
    by (elim exE conjE) (rule that, assumption+)
  have e: "filter (\<lambda>c. elem grid_2x3 [0, 0, 0, c] = 1) [0..<3] = [1, 2]"
    "filter (\<lambda>c. elem grid_2x3 [0, 0, 0, c] = 0) [0..<3] = [0]"
    "filter (\<lambda>c. elem grid_2x3 [0, 0, 1, c] = 1) [0..<3] = [0]"
    "filter (\<lambda>c. elem grid_2x3 [0, 0, 1, c] = 0) [0..<3] = [1, 2]"
    "filter (\<lambda>r. elem grid_2x3 [0, 0, r, 0] = 1) [0..<2] = [1]"
    "filter (\<lambda>r. elem grid_2x3 [0, 0, r, 0] = 0) [0..<2] = [0]"
    by (simp_all add: grid_2x3_def upt_rec)
  have f0: "elem kvn [0, 0, 0] = 2 \<and> map (\<lambda>k. elem kvi [0, 0, 0, k]) [0..<3] = [1, 2, 0]"
    using f[rule_format, of 0 0 0] by (simp only: e) simp
  have f1: "elem kvn [0, 0, 1] = 1 \<and> map (\<lambda>k. elem kvi [0, 0, 1, k]) [0..<3] = [0, 1, 2]"
    using f[rule_format, of 0 0 1] by (simp only: e) simp
  have t0: "elem qn [0, 0, 0] = 1 \<and> map (\<lambda>k. elem qi [0, 0, 0, k]) [0..<2] = [1, 0]"
    using t[rule_format, of 0 0 0] by (simp only: e) simp
  show ?thesis
    by (rule exI[of _ kvn], rule exI[of _ kvi], rule exI[of _ qn], rule exI[of _ qi])
       (use r f0 f1 t0 in simp)
qed

subsection \<open>The compressed arrays depend on the in-range flags only\<close>

lemma tensor_eq_shape: "tensor_eq s t \<Longrightarrow> shape s = shape t"
  by (simp add: tensor_eq_def)

lemma tensor_eq_elem_4:
  "tensor_eq s t \<Longrightarrow> shape s = [B, H, R, C] \<Longrightarrow> b < B \<Longrightarrow> h < H \<Longrightarrow> r < R \<Longrightarrow> c < C \<Longrightarrow>
   elem s [b, h, r, c] = elem t [b, h, r, c]"
  unfolding tensor_eq_def by (elim conjE allE[of _ "[b, h, r, c]"]) simp

lemma tensor_eq_refl: "tensor_eq t t"
  by (simp add: tensor_eq_def)

lemma tensor_eq_compressed:
  assumes eq: "tensor_eq g1 g2" and sh: "shape g1 = [B, H, R, C]"
  shows "tensor_eq (sum_dim 3 g1) (sum_dim 3 g2)"
    and "tensor_eq (argsort_dim 3 g1) (argsort_dim 3 g2)"
    and "tensor_eq (sum_dim 2 g1) (sum_dim 2 g2)"
    and "tensor_eq (permute_0132 (argsort_dim 2 g1)) (permute_0132 (argsort_dim 2 g2))"
proof -
  have sh2: "shape g2 = [B, H, R, C]" using eq sh by (simp add: tensor_eq_def)
  note el = tensor_eq_elem_4[OF eq sh]
  show "tensor_eq (sum_dim 3 g1) (sum_dim 3 g2)"
    unfolding tensor_eq_def
  proof (intro conjI allI impI)
    show "shape (sum_dim 3 g1) = shape (sum_dim 3 g2)"
      by (simp only: shape_compressed[OF sh] shape_compressed[OF sh2])
    fix idx assume "in_range (shape (sum_dim 3 g1)) idx"
    then obtain b h r where i: "idx = [b, h, r]" "b < B" "h < H" "r < R"
      by (auto simp: shape_compressed[OF sh] in_range_3)
    have "(\<Sum>k\<leftarrow>[0..<C]. elem g1 [b, h, r, k]) = (\<Sum>k\<leftarrow>[0..<C]. elem g2 [b, h, r, k])"
      by (rule sum_list_upt_cong) (simp add: el i)
    then show "elem (sum_dim 3 g1) idx = elem (sum_dim 3 g2) idx"
      by (simp only: i elem_sum_dim_3[OF sh] elem_sum_dim_3[OF sh2])
  qed
  show "tensor_eq (sum_dim 2 g1) (sum_dim 2 g2)"
    unfolding tensor_eq_def
  proof (intro conjI allI impI)
    show "shape (sum_dim 2 g1) = shape (sum_dim 2 g2)"
      by (simp only: shape_compressed[OF sh] shape_compressed[OF sh2])
    fix idx assume "in_range (shape (sum_dim 2 g1)) idx"
    then obtain b h c where i: "idx = [b, h, c]" "b < B" "h < H" "c < C"
      by (auto simp: shape_compressed[OF sh] in_range_3)
    have "(\<Sum>k\<leftarrow>[0..<R]. elem g1 [b, h, k, c]) = (\<Sum>k\<leftarrow>[0..<R]. elem g2 [b, h, k, c])"
      by (rule sum_list_upt_cong) (simp add: el i)
    then show "elem (sum_dim 2 g1) idx = elem (sum_dim 2 g2) idx"
      by (simp only: i elem_sum_dim_2[OF sh] elem_sum_dim_2[OF sh2])
  qed
  show "tensor_eq (argsort_dim 3 g1) (argsort_dim 3 g2)"
    unfolding tensor_eq_def
  proof (intro conjI allI impI)
    show "shape (argsort_dim 3 g1) = shape (argsort_dim 3 g2)"
      by (simp only: shape_compressed[OF sh] shape_compressed[OF sh2])
    fix idx assume "in_range (shape (argsort_dim 3 g1)) idx"
    then obtain b h r k where i: "idx = [b, h, r, k]" "b < B" "h < H" "r < R" "k < C"
      by (auto simp: shape_compressed[OF sh] in_range_4)
    have "argsort_desc_stable (map (\<lambda>c. elem g1 [b, h, r, c]) [0..<C])
            = argsort_desc_stable (map (\<lambda>c. elem g2 [b, h, r, c]) [0..<C])"
      by (rule argsort_cong) (simp add: el i)
    then show "elem (argsort_dim 3 g1) idx = elem (argsort_dim 3 g2) idx"
      by (simp only: i elem_argsort_dim_3[OF sh] elem_argsort_dim_3[OF sh2])
  qed
  show "tensor_eq (permute_0132 (argsort_dim 2 g1)) (permute_0132 (argsort_dim 2 g2))"
    unfolding tensor_eq_def
  proof (intro conjI allI impI)
    show "shape (permute_0132 (argsort_dim 2 g1)) = shape (permute_0132 (argsort_dim 2 g2))"
      by (simp only: shape_compressed[OF sh] shape_compressed[OF sh2])
    fix idx assume "in_range (shape (permute_0132 (argsort_dim 2 g1))) idx"
    then obtain b h c k where i: "idx = [b, h, c, k]" "b < B" "h < H" "c < C" "k < R"
      by (auto simp: shape_compressed[OF sh] in_range_4)
    have "argsort_desc_stable (map (\<lambda>r. elem g1 [b, h, r, c]) [0..<R])
            = argsort_desc_stable (map (\<lambda>r. elem g2 [b, h, r, c]) [0..<R])"
      by (rule argsort_cong) (simp add: el i)
    then show "elem (permute_0132 (argsort_dim 2 g1)) idx = elem (permute_0132 (argsort_dim 2 g2)) idx"
      by (simp only: i elem_argsort_dim_2[OF sh] elem_argsort_dim_2[OF sh2])
  qed
qed

lemma inner_not_4:
  "dim g \<noteq> 4 \<Longrightarrow>
   create_sparse_block_from_block_mask_inner g = Inl (if dim g < 4 then IndexError else RuntimeError)"
  by (simp add: create_sparse_block_from_block_mask_inner_def)

lemma dim_zeros: "dim (zeros sh) = length sh"
  by (simp add: dim_def zeros_def)

lemma sparse_full_fail:
  "dim full_blocks \<noteq> 4 \<Longrightarrow>
   create_sparse_block_from_block_mask (full_blocks, partial_blocks) mfn KVb Qb
     = Inl (if dim full_blocks < 4 then IndexError else RuntimeError)"
  by (simp add: create_sparse_block_from_block_mask_def inner_not_4)

lemma sparse_partial_fail:
  "shape full_blocks = [B, H, R, C] \<Longrightarrow> dim pb \<noteq> 4 \<Longrightarrow>
   create_sparse_block_from_block_mask (full_blocks, Some pb) mfn KVb Qb
     = Inl (if dim pb < 4 then IndexError else RuntimeError)"
  by (simp add: create_sparse_block_from_block_mask_def inner_not_4 inner_eq)

lemma sparse_None:
  "shape full_blocks = [B, H, R, C] \<Longrightarrow>
   create_sparse_block_from_block_mask (full_blocks, None) mfn KVb Qb
     = Inr \<lparr>full_kv_num_blocks = sum_dim 3 full_blocks,
            full_kv_indices = argsort_dim 3 full_blocks,
            full_q_num_blocks = sum_dim 2 full_blocks,
            full_q_indices = permute_0132 (argsort_dim 2 full_blocks),
            partial_kv_num_blocks = zeros [1, 1, 1],
            partial_kv_indices = zeros [1, 1, 1, 1],
            partial_q_num_blocks = zeros [1, 1, 1],
            partial_q_indices = zeros [1, 1, 1, 1],
            KV_BLOCK_SIZE = KVb, Q_BLOCK_SIZE = Qb, mask_fn = mfn\<rparr>"
  by (simp add: create_sparse_block_from_block_mask_def inner_eq BlockMask_init_def
      dim_zeros) (simp add: dim_def argsort_dim_def)

lemma sparse_Some:
  "shape full_blocks = [B, H, R, C] \<Longrightarrow> shape pb = [B', H', R', C'] \<Longrightarrow>
   create_sparse_block_from_block_mask (full_blocks, Some pb) mfn KVb Qb
     = Inr \<lparr>full_kv_num_blocks = sum_dim 3 full_blocks,
            full_kv_indices = argsort_dim 3 full_blocks,
            full_q_num_blocks = sum_dim 2 full_blocks,
            full_q_indices = permute_0132 (argsort_dim 2 full_blocks),
            partial_kv_num_blocks = sum_dim 3 pb,
            partial_kv_indices = argsort_dim 3 pb,
            partial_q_num_blocks = sum_dim 2 pb,
            partial_q_indices = permute_0132 (argsort_dim 2 pb),
            KV_BLOCK_SIZE = KVb, Q_BLOCK_SIZE = Qb, mask_fn = mfn\<rparr>"
  by (simp add: create_sparse_block_from_block_mask_def inner_eq BlockMask_init_def)
     (simp add: dim_def argsort_dim_def)

lemma sparse_tensor_eq:
  assumes "tensor_eq full1 full2" and "rel_option tensor_eq partial1 partial2"
  shows "rel_sum (=) BlockMask_eq
           (create_sparse_block_from_block_mask (full1, partial1) mfn KVb Qb)
           (create_sparse_block_from_block_mask (full2, partial2) mfn KVb Qb)"
proof (cases "dim full1 = 4")
  case False
  moreover have "dim full2 = dim full1"
    using assms(1) by (simp add: dim_def tensor_eq_def)
  ultimately show ?thesis by (simp add: sparse_full_fail)
next
  case True
  then obtain B H R C where sh1: "shape full1 = [B, H, R, C]"
    using length_4_shape[of "shape full1"] by (auto simp: dim_def)
  then have sh2: "shape full2 = [B, H, R, C]"
    using assms(1) by (simp add: tensor_eq_def)
  note f = tensor_eq_compressed[OF assms(1) sh1]
  show ?thesis
  proof (cases partial1)
    case None
    then have "partial2 = None" using assms(2) by (cases partial2) simp_all
    then show ?thesis
      using None f
      by (simp add: sparse_None[OF sh1] sparse_None[OF sh2] BlockMask_eq_def tensor_eq_refl)
  next
    case (Some p1)
    then obtain p2 where p2: "partial2 = Some p2" and peq: "tensor_eq p1 p2"
      using assms(2) by (cases partial2) simp_all
    have d: "dim p2 = dim p1" using peq by (simp add: dim_def tensor_eq_def)
    show ?thesis
    proof (cases "dim p1 = 4")
      case False
      then show ?thesis
        using Some p2 d sparse_partial_fail[OF sh1, of p1] sparse_partial_fail[OF sh2, of p2]
        by simp
    next
      case True
      then obtain B' H' R' C' where ps1: "shape p1 = [B', H', R', C']"
        using length_4_shape[of "shape p1"] by (auto simp: dim_def)
      then have ps2: "shape p2 = [B', H', R', C']"
        using peq by (simp add: tensor_eq_def)
      note g = tensor_eq_compressed[OF peq ps1]
      show ?thesis
        using Some p2 f g
        by (simp add: sparse_Some[OF sh1 ps1] sparse_Some[OF sh2 ps2] BlockMask_eq_def)
    qed
  qed
qed

lemma tensor_eq_grid_2x3: "tensor_eq grid_2x3 grid_2x3'"
  by (auto simp: tensor_eq_def grid_2x3_def grid_2x3'_def in_range_4)

subsection \<open>The stable descending argsort is determined by its contract\<close>

lemma sorted_wrt_unique:
  assumes irrefl: "\<And>a. \<not> R a a" and asym: "\<And>a b. R a b \<Longrightarrow> \<not> R b a"
    and "sorted_wrt R xs" and "sorted_wrt R ys" and "set xs = set ys"
  shows "xs = ys"
  using assms(3-5)
proof (induction xs arbitrary: ys)
  case Nil
  then show ?case by simp
next
  case (Cons x xs)
  then obtain y ys' where ys: "ys = y # ys'" by (cases ys) auto
  have sx: "\<forall>z\<in>set xs. R x z" and sxs: "sorted_wrt R xs"
    using Cons.prems(1) by simp_all
  have sy: "\<forall>z\<in>set ys'. R y z" and sys: "sorted_wrt R ys'"
    using Cons.prems(2) ys by simp_all
  have xy: "x = y"
  proof (rule ccontr)
    assume ne: "x \<noteq> y"
    have "x \<in> set ys'" using Cons.prems(3) ys ne by auto
    then have "R y x" using sy by simp
    moreover have "y \<in> set xs" using Cons.prems(3) ys ne by auto
    then have "R x y" using sx by simp
    ultimately show False using asym by blast
  qed
  have nx: "x \<notin> set xs" using sx irrefl by blast
  have ny: "y \<notin> set ys'" using sy irrefl by blast
  have "set xs = set ys'" using Cons.prems(3) ys xy nx ny by auto
  then have "xs = ys'" using Cons.IH[OF sxs sys] by simp
  then show ?case using ys xy by simp
qed

lemma sorted_wrt_insort_key:
  fixes f :: "nat \<Rightarrow> int"
  assumes "sorted_wrt (\<lambda>i j. f i < f j \<or> (f i = f j \<and> i < j)) ys"
    and "\<forall>y\<in>set ys. z < y"
  shows "sorted_wrt (\<lambda>i j. f i < f j \<or> (f i = f j \<and> i < j)) (insort_key f z ys)"
  using assms
proof (induction ys)
  case Nil
  then show ?case by simp
next
  case (Cons y ys)
  show ?case
  proof (cases "f z \<le> f y")
    case True
    have "\<forall>w\<in>set (y # ys). f z < f w \<or> (f z = f w \<and> z < w)"
    proof
      fix w assume w: "w \<in> set (y # ys)"
      have "f y \<le> f w" using Cons.prems(1) w by auto
      then have "f z \<le> f w" using True by simp
      moreover have "z < w" using Cons.prems(2) w by auto
      ultimately show "f z < f w \<or> (f z = f w \<and> z < w)" by auto
    qed
    then show ?thesis using True Cons.prems(1) by simp
  next
    case False
    have ih: "sorted_wrt (\<lambda>i j. f i < f j \<or> (f i = f j \<and> i < j)) (insort_key f z ys)"
      using Cons by simp
    have "\<forall>w\<in>set (insort_key f z ys). f y < f w \<or> (f y = f w \<and> y < w)"
      using Cons.prems(1) False by (auto simp: set_insort_key)
    then show ?thesis using False ih by simp
  qed
qed

lemma sorted_wrt_sort_key_upt:
  fixes f :: "nat \<Rightarrow> int"
  shows "sorted_wrt (\<lambda>i j. f i < f j \<or> (f i = f j \<and> i < j)) (sort_key f [m..<n])"
proof (induction "n - m" arbitrary: m)
  case 0
  then show ?case by simp
next
  case (Suc d)
  then have mn: "m < n" and d: "d = n - Suc m" by simp_all
  have u: "[m..<n] = m # [Suc m..<n]" using mn by (simp add: upt_rec)
  have ih: "sorted_wrt (\<lambda>i j. f i < f j \<or> (f i = f j \<and> i < j)) (sort_key f [Suc m..<n])"
    by (rule Suc.hyps(1)[OF d])
  have "\<forall>y\<in>set (sort_key f [Suc m..<n]). m < y" by simp
  from sorted_wrt_insort_key[OF ih this] show ?case by (simp add: u)
qed

lemma argsort_meets_contract: "stable_argsort_desc xs (argsort_desc_stable xs)"
proof -
  have "sorted_wrt (\<lambda>i j. - (xs ! i) < - (xs ! j) \<or> (- (xs ! i) = - (xs ! j) \<and> i < j))
          (sort_key (\<lambda>i. - (xs ! i)) [0..<length xs])"
    by (rule sorted_wrt_sort_key_upt)
  then have "sorted_wrt (\<lambda>i j. xs ! j < xs ! i \<or> (xs ! i = xs ! j \<and> i < j))
          (sort_key (\<lambda>i. - (xs ! i)) [0..<length xs])"
    by simp
  then show ?thesis
    by (simp add: stable_argsort_desc_def argsort_desc_stable_def)
qed

lemma argsort_unique:
  "stable_argsort_desc xs p \<longleftrightarrow> p = argsort_desc_stable xs"
proof
  assume p: "stable_argsort_desc xs p"
  let ?R = "\<lambda>i j. xs ! j < xs ! i \<or> (xs ! i = xs ! j \<and> i < j)"
  have a: "stable_argsort_desc xs (argsort_desc_stable xs)" by (rule argsort_meets_contract)
  have "sorted_wrt ?R p" and "sorted_wrt ?R (argsort_desc_stable xs)"
    and "set p = set (argsort_desc_stable xs)"
    using p a by (simp_all add: stable_argsort_desc_def)
  then show "p = argsort_desc_stable xs"
    by (rule sorted_wrt_unique[rotated 2]) auto
next
  assume "p = argsort_desc_stable xs"
  then show "stable_argsort_desc xs p" by (simp add: argsort_meets_contract)
qed


lemma map_int_eq: "map int p = map int q \<longleftrightarrow> p = q"
  by (simp add: inj_map_eq_map inj_of_nat)

lemma index_row_unique:
  assumes sh: "shape g1 = [B, H, R, C]" and eq: "tensor_eq g1 g2"
    and i: "b < B" "h < H" "r < R"
  shows "stable_argsort_desc (map (\<lambda>c. elem g2 [b, h, r, c]) [0..<C]) p
           \<longleftrightarrow> map int p = map (\<lambda>k. elem (argsort_dim 3 g1) [b, h, r, k]) [0..<C]"
proof -
  have "\<forall>c<C. elem g1 [b, h, r, c] = elem g2 [b, h, r, c]"
    using tensor_eq_elem_4[OF eq sh] i by simp
  then have row: "map (\<lambda>c. elem g2 [b, h, r, c]) [0..<C] = map (\<lambda>c. elem g1 [b, h, r, c]) [0..<C]"
    by simp
  have out: "map (\<lambda>k. elem (argsort_dim 3 g1) [b, h, r, k]) [0..<C]
            = map int (argsort_desc_stable (map (\<lambda>c. elem g1 [b, h, r, c]) [0..<C]))"
    by (simp only: elem_argsort_dim_3[OF sh] map_nth_int length_argsort length_map length_upt diff_zero)
  show ?thesis
    by (simp only: row out map_int_eq argsort_unique)
qed

lemma index_col_unique:
  assumes sh: "shape g1 = [B, H, R, C]" and eq: "tensor_eq g1 g2"
    and i: "b < B" "h < H" "c < C"
  shows "stable_argsort_desc (map (\<lambda>r. elem g2 [b, h, r, c]) [0..<R]) p
           \<longleftrightarrow> map int p = map (\<lambda>k. elem (permute_0132 (argsort_dim 2 g1)) [b, h, c, k]) [0..<R]"
proof -
  have "\<forall>r<R. elem g1 [b, h, r, c] = elem g2 [b, h, r, c]"
    using tensor_eq_elem_4[OF eq sh] i by simp
  then have col: "map (\<lambda>r. elem g2 [b, h, r, c]) [0..<R] = map (\<lambda>r. elem g1 [b, h, r, c]) [0..<R]"
    by simp
  have out: "map (\<lambda>k. elem (permute_0132 (argsort_dim 2 g1)) [b, h, c, k]) [0..<R]
            = map int (argsort_desc_stable (map (\<lambda>r. elem g1 [b, h, r, c]) [0..<R]))"
    by (simp only: elem_argsort_dim_2[OF sh] map_nth_int length_argsort length_map length_upt diff_zero)
  show ?thesis
    by (simp only: col out map_int_eq argsort_unique)
qed

lemma sparse_fields:
  assumes r: "create_sparse_block_from_block_mask (full_blocks, partial_blocks) mfn KVb Qb = Inr bm"
    and sh: "shape full_blocks = [B, H, R, C]"
  shows "full_kv_indices bm = argsort_dim 3 full_blocks"
    and "full_q_indices bm = permute_0132 (argsort_dim 2 full_blocks)"
    and "partial_blocks = Some pb \<Longrightarrow> dim pb = 4"
    and "partial_blocks = Some pb \<Longrightarrow> partial_kv_indices bm = argsort_dim 3 pb"
    and "partial_blocks = Some pb \<Longrightarrow> partial_q_indices bm = permute_0132 (argsort_dim 2 pb)"
proof -
  have a: "full_kv_indices bm = argsort_dim 3 full_blocks
      \<and> full_q_indices bm = permute_0132 (argsort_dim 2 full_blocks)
      \<and> (partial_blocks = Some pb \<longrightarrow> dim pb = 4
            \<and> partial_kv_indices bm = argsort_dim 3 pb
            \<and> partial_q_indices bm = permute_0132 (argsort_dim 2 pb))"
  proof (cases partial_blocks)
    case None
    then show ?thesis using r sparse_None[OF sh, of mfn KVb Qb] by auto
  next
    case (Some p1)
    show ?thesis
    proof (cases "dim p1 = 4")
      case False
      then show ?thesis using r Some sparse_partial_fail[OF sh, of p1 mfn KVb Qb] by simp
    next
      case True
      then obtain B' H' R' C' where ps: "shape p1 = [B', H', R', C']"
        using length_4_shape[of "shape p1"] by (auto simp: dim_def)
      show ?thesis using r Some True sparse_Some[OF sh ps, of mfn KVb Qb] by auto
    qed
  qed
  show "full_kv_indices bm = argsort_dim 3 full_blocks"
    and "full_q_indices bm = permute_0132 (argsort_dim 2 full_blocks)"
    and "partial_blocks = Some pb \<Longrightarrow> dim pb = 4"
    and "partial_blocks = Some pb \<Longrightarrow> partial_kv_indices bm = argsort_dim 3 pb"
    and "partial_blocks = Some pb \<Longrightarrow> partial_q_indices bm = permute_0132 (argsort_dim 2 pb)"
    using a by simp_all
qed

lemma sparse_total:
  assumes "dim full_blocks = 4" and "\<forall>pb. partial_blocks = Some pb \<longrightarrow> dim pb = 4"
  shows "\<exists>bm. create_sparse_block_from_block_mask (full_blocks, partial_blocks) mfn KVb Qb = Inr bm"
proof -
  obtain B H R C where sh: "shape full_blocks = [B, H, R, C]"
    using assms(1) length_4_shape[of "shape full_blocks"] by (auto simp: dim_def)
  show ?thesis
  proof (cases partial_blocks)
    case None
    then show ?thesis using sparse_None[OF sh, of mfn KVb Qb] by simp
  next
    case (Some p1)
    then obtain B' H' R' C' where ps: "shape p1 = [B', H', R', C']"
      using assms(2) length_4_shape[of "shape p1"] by (auto simp: dim_def)
    show ?thesis using Some sparse_Some[OF sh ps, of mfn KVb Qb] by simp
  qed
qed


text \<open>
  C9. The compressor is deterministic, and it is so because the sort is stable. Run on two
  pairs of tile grids that hold the same entries (same shapes, same in-range entries) with
  the same block sizes, it fails in the same way or returns BlockMasks whose count and
  index arrays agree in shape and in every entry; it returns whenever the grids have four
  axes. Moreover every index row of the first run, in the forward and in the transposed
  view, of the full and of the partial arrays, is the only list that meets the contract of
  a stable descending argsort on the corresponding line of the second run's grid: the
  entries beyond the row's count are fixed as well, so any two runs that honour
  \<open>stable=True\<close> return the same arrays.
\<close>

theorem compressor_deterministic:
  assumes "tensor_eq full1 full2" and "rel_option tensor_eq partial1 partial2"
  shows "rel_sum (=) BlockMask_eq
           (create_sparse_block_from_block_mask (full1, partial1) mfn KVb Qb)
           (create_sparse_block_from_block_mask (full2, partial2) mfn KVb Qb)
       \<and> (dim full1 = 4 \<and> (\<forall>pb. partial1 = Some pb \<longrightarrow> dim pb = 4) \<longrightarrow>
            (\<exists>bm. create_sparse_block_from_block_mask (full1, partial1) mfn KVb Qb = Inr bm))
       \<and> (\<forall>bm B H R C.
             create_sparse_block_from_block_mask (full1, partial1) mfn KVb Qb = Inr bm
             \<and> shape full2 = [B, H, R, C] \<longrightarrow>
               (\<forall>b<B. \<forall>h<H. \<forall>r<R. \<forall>p.
                  stable_argsort_desc (map (\<lambda>c. elem full2 [b, h, r, c]) [0..<C]) p
                  \<longleftrightarrow> map int p = map (\<lambda>k. elem (full_kv_indices bm) [b, h, r, k]) [0..<C])
             \<and> (\<forall>b<B. \<forall>h<H. \<forall>c<C. \<forall>p.
                  stable_argsort_desc (map (\<lambda>r. elem full2 [b, h, r, c]) [0..<R]) p
                  \<longleftrightarrow> map int p = map (\<lambda>k. elem (full_q_indices bm) [b, h, c, k]) [0..<R]))
       \<and> (\<forall>bm pb B H R C.
             create_sparse_block_from_block_mask (full1, partial1) mfn KVb Qb = Inr bm
             \<and> partial2 = Some pb \<and> shape pb = [B, H, R, C] \<longrightarrow>
               (\<forall>b<B. \<forall>h<H. \<forall>r<R. \<forall>p.
                  stable_argsort_desc (map (\<lambda>c. elem pb [b, h, r, c]) [0..<C]) p
                  \<longleftrightarrow> map int p = map (\<lambda>k. elem (partial_kv_indices bm) [b, h, r, k]) [0..<C])
             \<and> (\<forall>b<B. \<forall>h<H. \<forall>c<C. \<forall>p.
                  stable_argsort_desc (map (\<lambda>r. elem pb [b, h, r, c]) [0..<R]) p
                  \<longleftrightarrow> map int p = map (\<lambda>k. elem (partial_q_indices bm) [b, h, c, k]) [0..<R]))"
proof (intro conjI allI impI)
  show "rel_sum (=) BlockMask_eq
           (create_sparse_block_from_block_mask (full1, partial1) mfn KVb Qb)
           (create_sparse_block_from_block_mask (full2, partial2) mfn KVb Qb)"
    by (rule sparse_tensor_eq[OF assms])
next
  assume "dim full1 = 4 \<and> (\<forall>pb. partial1 = Some pb \<longrightarrow> dim pb = 4)"
  then show "\<exists>bm. create_sparse_block_from_block_mask (full1, partial1) mfn KVb Qb = Inr bm"
    using sparse_total by blast
next
  fix bm B H R C b h r p
  assume a: "create_sparse_block_from_block_mask (full1, partial1) mfn KVb Qb = Inr bm
             \<and> shape full2 = [B, H, R, C]"
    and i: "b < B" "h < H" "r < R"
  have sh: "shape full1 = [B, H, R, C]" using a assms(1) by (simp add: tensor_eq_def)
  show "stable_argsort_desc (map (\<lambda>c. elem full2 [b, h, r, c]) [0..<C]) p
          \<longleftrightarrow> map int p = map (\<lambda>k. elem (full_kv_indices bm) [b, h, r, k]) [0..<C]"
    unfolding sparse_fields(1)[OF conjunct1[OF a] sh]
    by (rule index_row_unique[OF sh assms(1) i])
next
  fix bm B H R C b h c p
  assume a: "create_sparse_block_from_block_mask (full1, partial1) mfn KVb Qb = Inr bm
             \<and> shape full2 = [B, H, R, C]"
    and i: "b < B" "h < H" "c < C"
  have sh: "shape full1 = [B, H, R, C]" using a assms(1) by (simp add: tensor_eq_def)
  show "stable_argsort_desc (map (\<lambda>r. elem full2 [b, h, r, c]) [0..<R]) p
          \<longleftrightarrow> map int p = map (\<lambda>k. elem (full_q_indices bm) [b, h, c, k]) [0..<R]"
    unfolding sparse_fields(2)[OF conjunct1[OF a] sh]
    by (rule index_col_unique[OF sh assms(1) i])
next
  fix bm pb B H R C b h r p
  assume a: "create_sparse_block_from_block_mask (full1, partial1) mfn KVb Qb = Inr bm
             \<and> partial2 = Some pb \<and> shape pb = [B, H, R, C]"
    and i: "b < B" "h < H" "r < R"
  from a assms(2) obtain p1 where p1: "partial1 = Some p1" and peq: "tensor_eq p1 pb"
    by (cases partial1) simp_all
  have ps: "shape p1 = [B, H, R, C]" using a peq by (simp add: tensor_eq_def)
  have r: "create_sparse_block_from_block_mask (full1, partial1) mfn KVb Qb = Inr bm"
    using a by simp
  have "dim full1 = 4"
  proof (rule ccontr)
    assume "dim full1 \<noteq> 4"
    then show False using r sparse_full_fail[of full1 partial1 mfn KVb Qb] by simp
  qed
  then obtain B' H' R' C' where sh: "shape full1 = [B', H', R', C']"
    using length_4_shape[of "shape full1"] by (auto simp: dim_def)
  show "stable_argsort_desc (map (\<lambda>c. elem pb [b, h, r, c]) [0..<C]) p
          \<longleftrightarrow> map int p = map (\<lambda>k. elem (partial_kv_indices bm) [b, h, r, k]) [0..<C]"
    unfolding sparse_fields(4)[OF r sh p1]
    by (rule index_row_unique[OF ps peq i])
next
  fix bm pb B H R C b h c p
  assume a: "create_sparse_block_from_block_mask (full1, partial1) mfn KVb Qb = Inr bm
             \<and> partial2 = Some pb \<and> shape pb = [B, H, R, C]"
    and i: "b < B" "h < H" "c < C"
  from a assms(2) obtain p1 where p1: "partial1 = Some p1" and peq: "tensor_eq p1 pb"
    by (cases partial1) simp_all
  have ps: "shape p1 = [B, H, R, C]" using a peq by (simp add: tensor_eq_def)
  have r: "create_sparse_block_from_block_mask (full1, partial1) mfn KVb Qb = Inr bm"
    using a by simp
  have "dim full1 = 4"
  proof (rule ccontr)
    assume "dim full1 \<noteq> 4"
    then show False using r sparse_full_fail[of full1 partial1 mfn KVb Qb] by simp
  qed
  then obtain B' H' R' C' where sh: "shape full1 = [B', H', R', C']"
    using length_4_shape[of "shape full1"] by (auto simp: dim_def)
  show "stable_argsort_desc (map (\<lambda>r. elem pb [b, h, r, c]) [0..<R]) p
          \<longleftrightarrow> map int p = map (\<lambda>k. elem (partial_q_indices bm) [b, h, c, k]) [0..<R]"
    unfolding sparse_fields(5)[OF r sh p1]
    by (rule index_col_unique[OF ps peq i])
qed


theorem compressor_deterministic_witness:
  "tensor_eq grid_2x3 grid_2x3'
   \<and> (\<exists>bm. create_sparse_block_from_block_mask (grid_2x3, Some partial_2x3) None 128 128 = Inr bm
        \<and> map (\<lambda>k. elem (full_kv_indices bm) [0, 0, 1, k]) [0..<3] = [0, 1, 2]
        \<and> map (\<lambda>k. elem (full_q_indices bm) [0, 0, 0, k]) [0..<2] = [1, 0]
        \<and> map (\<lambda>k. elem (partial_kv_indices bm) [0, 0, 1, k]) [0..<3] = [2, 0, 1])
   \<and> rel_sum (=) BlockMask_eq
        (create_sparse_block_from_block_mask (grid_2x3, Some partial_2x3) None 128 128)
        (create_sparse_block_from_block_mask (grid_2x3', Some partial_2x3) None 128 128)
   \<and> stable_argsort_desc [1, 0, 0] [0, 1, 2]
   \<and> \<not> stable_argsort_desc [1, 0, 0] [0, 2, 1]"
proof -
  have po: "rel_option tensor_eq (Some partial_2x3) (Some partial_2x3)"
    by (simp add: tensor_eq_refl)
  note T = compressor_deterministic[OF tensor_eq_grid_2x3 po, of None 128 128]
  note T1 = T[THEN conjunct1]
  note T2 = T[THEN conjunct2, THEN conjunct1]
  note T3 = T[THEN conjunct2, THEN conjunct2, THEN conjunct1]
  note T4 = T[THEN conjunct2, THEN conjunct2, THEN conjunct2]
  have d: "dim grid_2x3 = 4 \<and> (\<forall>pb. Some partial_2x3 = Some pb \<longrightarrow> dim pb = 4)"
    by (simp add: dim_def grid_2x3_def partial_2x3_def)
  from T2[THEN mp, OF d] obtain bm where
    r: "create_sparse_block_from_block_mask (grid_2x3, Some partial_2x3) None 128 128 = Inr bm"
    by blast
  have sh': "shape grid_2x3' = [1, 1, 2, 3]" and shp: "shape partial_2x3 = [1, 1, 2, 3]"
    by (simp_all add: grid_2x3'_def partial_2x3_def)
  note F = T3[THEN spec[of _ bm], THEN spec[of _ "1::nat"], THEN spec[of _ "1::nat"],
      THEN spec[of _ "2::nat"], THEN spec[of _ "3::nat"], THEN mp, OF conjI[OF r sh']]
  note P = T4[THEN spec[of _ bm], THEN spec[of _ partial_2x3], THEN spec[of _ "1::nat"],
      THEN spec[of _ "1::nat"], THEN spec[of _ "2::nat"], THEN spec[of _ "3::nat"],
      THEN mp, OF conjI[OF r conjI[OF refl shp]]]
  have rows: "map (\<lambda>c. elem grid_2x3' [0, 0, 1, c]) [0..<3] = [1, 0, 0]"
    "map (\<lambda>r. elem grid_2x3' [0, 0, r, 0]) [0..<2] = [0, 1]"
    "map (\<lambda>c. elem partial_2x3 [0, 0, 1, c]) [0..<3] = [0, 0, 1]"
    by (simp_all add: grid_2x3'_def grid_2x3_def partial_2x3_def upt_rec)
  have s3: "{0..<3::nat} = {0, 1, 2}" and s2: "{0..<2::nat} = {0, 1}" by auto
  have c: "stable_argsort_desc [1, 0, 0] [0, 1, 2]" "stable_argsort_desc [0, 1] [1, 0]"
    "stable_argsort_desc [0, 0, 1] [2, 0, 1]"
    by (auto simp: stable_argsort_desc_def s3 s2)
  have n: "\<not> stable_argsort_desc [1, 0, 0] [0, 2, 1]"
    by (simp add: stable_argsort_desc_def)
  have f1: "map (\<lambda>k. elem (full_kv_indices bm) [0, 0, 1, k]) [0..<3] = [0, 1, 2]"
    using F[THEN conjunct1, rule_format, of 0 0 1 "[0, 1, 2]"] rows(1) c(1) by simp
  have f2: "map (\<lambda>k. elem (full_q_indices bm) [0, 0, 0, k]) [0..<2] = [1, 0]"
    using F[THEN conjunct2, rule_format, of 0 0 0 "[1, 0]"] rows(2) c(2) by simp
  have p1: "map (\<lambda>k. elem (partial_kv_indices bm) [0, 0, 1, k]) [0..<3] = [2, 0, 1]"
    using P[THEN conjunct1, rule_format, of 0 0 1 "[2, 0, 1]"] rows(3) c(3) by simp
  have e: "\<exists>bm. create_sparse_block_from_block_mask (grid_2x3, Some partial_2x3) None 128 128 = Inr bm
        \<and> map (\<lambda>k. elem (full_kv_indices bm) [0, 0, 1, k]) [0..<3] = [0, 1, 2]
        \<and> map (\<lambda>k. elem (full_q_indices bm) [0, 0, 0, k]) [0..<2] = [1, 0]
        \<and> map (\<lambda>k. elem (partial_kv_indices bm) [0, 0, 1, k]) [0..<3] = [2, 0, 1]"
    by (rule exI[of _ bm], intro conjI) (rule r f1 f2 p1)+
  show ?thesis
    by (intro conjI) (rule tensor_eq_grid_2x3 e T1 c(1) n)+
qed

subsection \<open>BlockMasks built from a dense mask\<close>

lemma sum_all_zero: "sum_all sh (\<lambda>idx. 0) = 0"
  by (induction sh) simp_all

lemma tsum_zeros: "tsum (zeros sh) = 0"
  by (simp add: tsum_def zeros_def sum_all_zero)

lemma tsum_sum_dim_3:
  assumes "shape g = [B, H, R, C]"
  shows "tsum (sum_dim 3 g) = sum_all [B, H, R, C] (elem g)"
proof -
  have "sum_all [B, H, R] (elem (sum_dim 3 g))
          = sum_all [B, H, R] (\<lambda>idx. \<Sum>k\<leftarrow>[0..<C]. elem g (idx @ [k]))"
  proof (rule sum_all_cong)
    fix idx assume "in_range [B, H, R] idx"
    then obtain b h r where "idx = [b, h, r]" by (auto simp: in_range_3)
    then show "elem (sum_dim 3 g) idx = (\<Sum>k\<leftarrow>[0..<C]. elem g (idx @ [k]))"
      by (simp add: elem_sum_dim_3[OF assms])
  qed
  also have "\<dots> = sum_all ([B, H, R] @ [C]) (elem g)"
    by (rule sum_all_snoc[symmetric])
  finally show ?thesis
    by (simp add: tsum_def shape_compressed[OF assms])
qed

lemma dense_mask_shape:
  assumes "(if is_score_mod then create_mask_from_score_mod fn B H M N
            else create_mask_from_mask_fn fn B H M N) = Inr x"
  shows "shape x = [B, H, M, N]"
  using assms
  by (auto simp: create_mask_from_score_mod_def create_mask_from_mask_fn_def vmap_grid_def
      tmap_def Let_def split: if_splits option.splits)

lemma built_block_mask:
  assumes x: "(if is_score_mod then create_mask_from_score_mod fn B H M N
               else create_mask_from_mask_fn fn B H M N) = Inr x"
    and bs: "0 < Qb" "0 < KVb" "M mod Qb = 0" "N mod KVb = 0"
  shows "create_block_mask_inner fn B H M N KVb Qb is_score_mod =
     create_sparse_block_from_block_mask
       (if is_score_mod
        then (to_int (tmap (\<lambda>s. 0 < s) (mask_block_sum Qb KVb x)), None)
        else (to_int (tmap (\<lambda>s. s = int (Qb * KVb)) (mask_block_sum Qb KVb x)),
              Some (to_int (tmap (\<lambda>s. 0 < s \<and> s < int (Qb * KVb)) (mask_block_sum Qb KVb x)))))
       (if is_score_mod then None else Some fn)
       DEFAULT_SPARSE_BLOCK_SIZE DEFAULT_SPARSE_BLOCK_SIZE"
proof -
  have sh: "shape x = [B, H, M, N]" by (rule dense_mask_shape[OF x])
  have bid: "broadcast_to_dim x 4 = x"
    by (rule broadcast_to_dim_id) (simp add: dim_def sh)
  have sh': "shape (broadcast_to_dim x 4) = [B, H, M, N]" by (simp add: bid sh)
  show ?thesis
  proof (cases is_score_mod)
    case True
    then show ?thesis
      using x convert_None[OF sh' bs]
      by (simp add: create_block_mask_inner_def bid)
  next
    case False
    then show ?thesis
      using x convert_Some[OF sh' bs, of fn]
      by (simp add: create_block_mask_inner_def bid)
  qed
qed

lemma flags_add:
  fixes s :: int
  assumes "0 \<le> s" and "s \<le> m" and "0 < m"
  shows "(of_bool (s = m) :: int) + of_bool (0 < s \<and> s < m) = of_bool (0 < s)"
  using assms by auto

lemma built_tiles:
  assumes x: "(if is_score_mod then create_mask_from_score_mod fn B H M N
               else create_mask_from_mask_fn fn B H M N) = Inr x"
    and bs: "0 < Qb" "0 < KVb" "M mod Qb = 0" "N mod KVb = 0"
  shows "\<exists>bm. create_block_mask_inner fn B H M N KVb Qb is_score_mod = Inr bm
     \<and> KV_BLOCK_SIZE bm = 128 \<and> Q_BLOCK_SIZE bm = 128
     \<and> mask_fn bm = (if is_score_mod then None else Some fn)
     \<and> shape (full_kv_num_blocks bm) = [B, H, M div Qb]
     \<and> shape (full_kv_indices bm) = [B, H, M div Qb, N div KVb]
     \<and> shape (full_q_num_blocks bm) = [B, H, N div KVb]
     \<and> tsum (full_kv_num_blocks bm) + tsum (partial_kv_num_blocks bm)
         = sum_all [B, H, M div Qb, N div KVb]
             (\<lambda>idx. of_bool (0 < elem (mask_block_sum Qb KVb x) idx))"
proof -
  let ?S = "mask_block_sum Qb KVb x"
  let ?sh = "[B, H, M div Qb, N div KVb]"
  have sh: "shape x = [B, H, M, N]" by (rule dense_mask_shape[OF x])
  have shS: "shape ?S = ?sh" by (rule shape_mask_block_sum[OF sh])
  have shg: "\<And>p. shape (to_int (tmap p ?S)) = ?sh"
    by (simp add: shape_to_int_tmap shS)
  show ?thesis
  proof (cases is_score_mod)
    case True
    let ?F = "to_int (tmap (\<lambda>s. 0 < s) ?S)"
    have "tsum (sum_dim 3 ?F) = sum_all ?sh (\<lambda>idx. of_bool (0 < elem ?S idx))"
      by (simp add: tsum_sum_dim_3[OF shg] elem_to_int_tmap)
    then show ?thesis
      using True built_block_mask[OF x bs] sparse_None[OF shg] shape_compressed[OF shg]
      by (simp add: tsum_zeros DEFAULT_SPARSE_BLOCK_SIZE_def)
  next
    case False
    let ?F = "to_int (tmap (\<lambda>s. s = int (Qb * KVb)) ?S)"
    let ?P = "to_int (tmap (\<lambda>s. 0 < s \<and> s < int (Qb * KVb)) ?S)"
    have pos: "0 < int (Qb * KVb)" using bs by simp
    have "tsum (sum_dim 3 ?F) + tsum (sum_dim 3 ?P)
            = sum_all ?sh (\<lambda>idx. elem ?F idx + elem ?P idx)"
      by (simp add: tsum_sum_dim_3[OF shg] sum_all_add)
    also have "\<dots> = sum_all ?sh (\<lambda>idx. of_bool (0 < elem ?S idx))"
    proof (rule sum_all_cong)
      fix idx assume "in_range ?sh idx"
      then obtain b h r c where i: "idx = [b, h, r, c]" by (auto simp: in_range_4)
      have "0 \<le> elem ?S idx \<and> elem ?S idx \<le> int (Qb * KVb)"
        unfolding i elem_mask_block_sum by (rule tile_count_bounds)
      then show "elem ?F idx + elem ?P idx = of_bool (0 < elem ?S idx)"
        using pos by (simp only: elem_to_int_tmap flags_add)
    qed
    finally have "tsum (sum_dim 3 ?F) + tsum (sum_dim 3 ?P)
            = sum_all ?sh (\<lambda>idx. of_bool (0 < elem ?S idx))" .
    then show ?thesis
      using False built_block_mask[OF x bs] sparse_Some[OF shg shg] shape_compressed[OF shg]
      by (simp add: DEFAULT_SPARSE_BLOCK_SIZE_def)
  qed
qed

subsection \<open>Sparsity\<close>

lemma sparsity_formula:
  assumes "shape (full_kv_indices bm) = [B, H, R, C]"
    and "shape (full_kv_num_blocks bm) = [B, H, R]"
    and "shape (full_q_num_blocks bm) = [B, H, C]"
    and "KV_BLOCK_SIZE bm = kvb" and "Q_BLOCK_SIZE bm = qb"
    and "0 < B" "0 < H" "0 < R" "0 < C" "0 < kvb" "0 < qb"
    and "tsum (full_kv_num_blocks bm) + tsum (partial_kv_num_blocks bm) = n"
  shows "sparsity bm = Inr (100 * (1 - real_of_int n / real (B * H * R * C)))"
proof -
  have sh: "bm_shape bm = Inr [B, H, R * kvb, C * qb]"
    using assms by (simp add: bm_shape_def dim_def)
  have nm: "numel bm = Inr (B * H * (R * kvb * (C * qb)))"
    by (simp add: numel_def sh)
  have pos: "B * H * (R * kvb * (C * qb)) \<noteq> 0" using assms by simp
  have r: "real_of_int (n * int kvb * int qb) / real (B * H * (R * kvb * (C * qb)))
          = real_of_int n / real (B * H * R * C)"
    using assms by (simp add: field_simps)
  have "sparsity bm = Inr (100 * (1 - real_of_int (n * int kvb * int qb)
                                        / real (B * H * (R * kvb * (C * qb)))))"
    using pos by (simp add: sparsity_def nm Let_def assms(4,5,12))
  then show ?thesis by (simp only: r)
qed

lemma sparsity_range:
  fixes n :: int and T :: nat
  assumes "0 \<le> n" and "n \<le> int T" and "0 < T"
  shows "0 \<le> 100 * (1 - real_of_int n / real T)"
    and "100 * (1 - real_of_int n / real T) \<le> 100"
    and "100 * (1 - real_of_int n / real T) = 0 \<longleftrightarrow> n = int T"
proof -
  have a: "real_of_int n \<le> real T" using assms(2) by (metis of_int_le_iff of_int_of_nat_eq)
  have b: "0 \<le> real_of_int n" using assms(1) by simp
  have c: "0 < real T" using assms(3) by simp
  show "0 \<le> 100 * (1 - real_of_int n / real T)" using a c by (simp add: field_simps)
  show "100 * (1 - real_of_int n / real T) \<le> 100" using b c by (simp add: field_simps)
  have "100 * (1 - real_of_int n / real T) = 0 \<longleftrightarrow> real_of_int n = real T"
    using c by (auto simp: field_simps)
  also have "\<dots> \<longleftrightarrow> n = int T" by (metis of_int_eq_iff of_int_of_nat_eq)
  finally show "100 * (1 - real_of_int n / real T) = 0 \<longleftrightarrow> n = int T" .
qed

lemma div_pos_of_multiple:
  fixes M Qb :: nat
  assumes "0 < M" and "M mod Qb = 0" and "0 < Qb"
  shows "0 < M div Qb"
  using assms by (metis div_greater_zero_iff mod_less neq0_conv not_le)

text \<open>
  C6, as the code has it. For a BlockMask built from a dense mask with non-zero extents,
  the sparsity lies between 0 and 100; it is 0 exactly when every tile of the dense mask
  holds a true element, that is, when no tile is EMPTY (every tile FULL or PARTIAL).
\<close>

theorem sparsity_of_built_mask:
  assumes x: "(if is_score_mod then create_mask_from_score_mod fn B H M N
               else create_mask_from_mask_fn fn B H M N) = Inr x"
    and bs: "0 < Qb" "0 < KVb" "M mod Qb = 0" "N mod KVb = 0"
    and ext: "0 < B" "0 < H" "0 < M" "0 < N"
  shows "\<exists>bm s. create_block_mask_inner fn B H M N KVb Qb is_score_mod = Inr bm
           \<and> sparsity bm = Inr s \<and> 0 \<le> s \<and> s \<le> 100
           \<and> (s = 0 \<longleftrightarrow>
                (\<forall>b<B. \<forall>h<H. \<forall>r<M div Qb. \<forall>c<N div KVb. 0 < tile_count x Qb KVb b h r c))"
proof -
  let ?R = "M div Qb" and ?C = "N div KVb"
  let ?f = "\<lambda>idx. of_bool (0 < elem (mask_block_sum Qb KVb x) idx) :: int"
  let ?n = "sum_all [B, H, ?R, ?C] ?f"
  let ?T = "B * H * ?R * ?C"
  from built_tiles[OF x bs] obtain bm where
    bm: "create_block_mask_inner fn B H M N KVb Qb is_score_mod = Inr bm"
    and sz: "KV_BLOCK_SIZE bm = 128" "Q_BLOCK_SIZE bm = 128"
    and sh: "shape (full_kv_num_blocks bm) = [B, H, ?R]"
      "shape (full_kv_indices bm) = [B, H, ?R, ?C]"
      "shape (full_q_num_blocks bm) = [B, H, ?C]"
    and n: "tsum (full_kv_num_blocks bm) + tsum (partial_kv_num_blocks bm) = ?n"
    by blast
  have R: "0 < ?R" using ext(3) bs(3) bs(1) by (rule div_pos_of_multiple)
  have C: "0 < ?C" using ext(4) bs(4) bs(2) by (rule div_pos_of_multiple)
  have s: "sparsity bm = Inr (100 * (1 - real_of_int ?n / real ?T))"
    by (rule sparsity_formula[OF sh(2) sh(1) sh(3) sz ext(1) ext(2) R C _ _ n]) simp_all
  have fl: "\<And>idx. in_range [B, H, ?R, ?C] idx \<Longrightarrow> 0 \<le> ?f idx \<and> ?f idx \<le> 1"
    by simp
  have T: "prod_list [B, H, ?R, ?C] = ?T" by (simp add: mult.assoc)
  have "0 \<le> ?n \<and> ?n \<le> int (prod_list [B, H, ?R, ?C])"
    by (rule sum_all_bounds) (rule fl)
  then have nb: "0 \<le> ?n" "?n \<le> int ?T"
    by (simp_all only: T)
  have Tpos: "0 < ?T" using ext R C by simp
  have "?n = int (prod_list [B, H, ?R, ?C])
      \<longleftrightarrow> (\<forall>idx. in_range [B, H, ?R, ?C] idx \<longrightarrow> ?f idx = 1)"
    by (rule sum_all_max_iff) (rule fl)
  then have "?n = int ?T \<longleftrightarrow> (\<forall>idx. in_range [B, H, ?R, ?C] idx \<longrightarrow> ?f idx = 1)"
    by (simp only: T)
  also have "\<dots> \<longleftrightarrow> (\<forall>b<B. \<forall>h<H. \<forall>r<?R. \<forall>c<?C. ?f [b, h, r, c] = 1)"
    by (auto simp: in_range_4)
  also have "\<dots> \<longleftrightarrow> (\<forall>b<B. \<forall>h<H. \<forall>r<?R. \<forall>c<?C. 0 < tile_count x Qb KVb b h r c)"
    by (simp add: elem_mask_block_sum)
  finally have full: "?n = int ?T
      \<longleftrightarrow> (\<forall>b<B. \<forall>h<H. \<forall>r<?R. \<forall>c<?C. 0 < tile_count x Qb KVb b h r c)" .
  show ?thesis
    using bm s sparsity_range[OF nb Tpos] full by blast
qed

subsection \<open>BlockMasks built from a mask function\<close>

lemma built_mask_fn:
  fixes B H M N Qb KVb :: nat
  assumes f: "call4 fn = Some f" and bs: "0 < Qb" "0 < KVb" "M mod Qb = 0" "N mod KVb = 0"
  defines "S \<equiv> mask_block_sum Qb KVb (vmap_grid f B H M N)"
  defines "F \<equiv> to_int (tmap (\<lambda>s. s = int (Qb * KVb)) S)"
  defines "P \<equiv> to_int (tmap (\<lambda>s. 0 < s \<and> s < int (Qb * KVb)) S)"
  shows "create_block_mask_inner fn B H M N KVb Qb False =
     Inr \<lparr>full_kv_num_blocks = sum_dim 3 F,
          full_kv_indices = argsort_dim 3 F,
          full_q_num_blocks = sum_dim 2 F,
          full_q_indices = permute_0132 (argsort_dim 2 F),
          partial_kv_num_blocks = sum_dim 3 P,
          partial_kv_indices = argsort_dim 3 P,
          partial_q_num_blocks = sum_dim 2 P,
          partial_q_indices = permute_0132 (argsort_dim 2 P),
          KV_BLOCK_SIZE = 128, Q_BLOCK_SIZE = 128, mask_fn = Some fn\<rparr>"
proof -
  have x: "(if False then create_mask_from_score_mod fn B H M N
            else create_mask_from_mask_fn fn B H M N) = Inr (vmap_grid f B H M N)"
    by (simp add: create_mask_from_mask_fn_def f)
  have sh: "shape (vmap_grid f B H M N) = [B, H, M, N]" by (simp add: vmap_grid_def)
  have shg: "\<And>p. shape (to_int (tmap p S)) = [B, H, M div Qb, N div KVb]"
    by (simp add: shape_to_int_tmap S_def shape_mask_block_sum[OF sh])
  show ?thesis
    using built_block_mask[OF x bs] sparse_Some[OF shg shg]
    by (simp add: S_def F_def P_def DEFAULT_SPARSE_BLOCK_SIZE_def)
qed

lemma create_block_mask_not_5:
  "length (filter default_is_empty (parameters fn)) \<noteq> 5 \<Longrightarrow>
   create_block_mask fn B H M N KVb Qb = create_block_mask_inner fn B H M N KVb Qb False"
  by (simp add: create_block_mask_def)

lemma create_block_mask_5:
  "length (filter default_is_empty (parameters fn)) = 5 \<Longrightarrow>
   create_block_mask fn B H M N KVb Qb = create_block_mask_inner fn B H M N KVb Qb True"
  by (simp add: create_block_mask_def)

lemma sum_all_1122:
  "sum_all [1, 1, 2, 2] f = f [0, 0, 0, 0] + f [0, 0, 0, 1] + f [0, 0, 1, 0] + f [0, 0, 1, 1]"
  by (simp add: upt_rec)

lemma elem_vmap_grid: "elem (vmap_grid f B H M N) [b, h, m, n] = f b h m n"
  by (simp add: vmap_grid_def)

subsection \<open>The causal mask of 256 positions\<close>

lemma causal_tiles:
  "tile_count causal_mask 128 128 0 0 1 0 = int (128 * 128)"
  "tile_count causal_mask 128 128 0 0 0 1 = 0"
  "0 < tile_count causal_mask 128 128 0 0 0 0"
  "tile_count causal_mask 128 128 0 0 0 0 < int (128 * 128)"
  "0 < tile_count causal_mask 128 128 0 0 1 1"
  "tile_count causal_mask 128 128 0 0 1 1 < int (128 * 128)"
proof -
  show "tile_count causal_mask 128 128 0 0 1 0 = int (128 * 128)"
    unfolding tile_count_full_iff by (simp add: causal_mask_def elem_vmap_grid)
  show "tile_count causal_mask 128 128 0 0 0 1 = 0"
    unfolding tile_count_zero_iff by (simp add: causal_mask_def elem_vmap_grid)
  have e00: "elem causal_mask [0, 0, 0 * 128 + 0, 0 * 128 + 0]"
    and n01: "\<not> elem causal_mask [0, 0, 0 * 128 + 0, 0 * 128 + 1]"
    and e11: "elem causal_mask [0, 0, 1 * 128 + 0, 1 * 128 + 0]"
    and n11: "\<not> elem causal_mask [0, 0, 1 * 128 + 0, 1 * 128 + 1]"
    by (simp_all add: causal_mask_def elem_vmap_grid)
  show "0 < tile_count causal_mask 128 128 0 0 0 0"
    unfolding tile_count_pos_iff using e00 by (intro exI[of _ 0] conjI) simp_all
  show "0 < tile_count causal_mask 128 128 0 0 1 1"
    unfolding tile_count_pos_iff using e11 by (intro exI[of _ 0] conjI) simp_all
  have "tile_count causal_mask 128 128 0 0 0 0 \<noteq> int (128 * 128)"
    unfolding tile_count_full_iff
  proof
    assume "\<forall>i<128. \<forall>j<128. elem causal_mask [0, 0, 0 * 128 + i, 0 * 128 + j]"
    from this[rule_format, of 0 1] n01 show False by simp
  qed
  then show "tile_count causal_mask 128 128 0 0 0 0 < int (128 * 128)"
    using tile_count_bounds[of causal_mask 128 128 0 0 0 0] by linarith
  have "tile_count causal_mask 128 128 0 0 1 1 \<noteq> int (128 * 128)"
    unfolding tile_count_full_iff
  proof
    assume "\<forall>i<128. \<forall>j<128. elem causal_mask [0, 0, 1 * 128 + i, 1 * 128 + j]"
    from this[rule_format, of 0 1] n11 show False by simp
  qed
  then show "tile_count causal_mask 128 128 0 0 1 1 < int (128 * 128)"
    using tile_count_bounds[of causal_mask 128 128 0 0 1 1] by linarith
qed


lemma causal_grids:
  defines "S \<equiv> mask_block_sum 128 128 causal_mask"
  defines "F \<equiv> to_int (tmap (\<lambda>s. s = int (128 * 128)) S)"
  defines "P \<equiv> to_int (tmap (\<lambda>s. 0 < s \<and> s < int (128 * 128)) S)"
  shows "shape F = [1, 1, 2, 2]" and "shape P = [1, 1, 2, 2]"
    and "map (elem F) [[0, 0, 0, 0], [0, 0, 0, 1], [0, 0, 1, 0], [0, 0, 1, 1]] = [0, 0, 1, 0]"
    and "map (elem P) [[0, 0, 0, 0], [0, 0, 0, 1], [0, 0, 1, 0], [0, 0, 1, 1]] = [1, 0, 0, 1]"
proof -
  have sh: "shape causal_mask = [1, 1, 256, 256]"
    by (simp add: causal_mask_def vmap_grid_def)
  show "shape F = [1, 1, 2, 2]" "shape P = [1, 1, 2, 2]"
    by (simp_all add: F_def P_def S_def shape_to_int_tmap shape_mask_block_sum[OF sh])
  show "map (elem F) [[0, 0, 0, 0], [0, 0, 0, 1], [0, 0, 1, 0], [0, 0, 1, 1]] = [0, 0, 1, 0]"
    using causal_tiles by (simp add: F_def S_def elem_to_int_tmap elem_mask_block_sum)
  show "map (elem P) [[0, 0, 0, 0], [0, 0, 0, 1], [0, 0, 1, 0], [0, 0, 1, 1]] = [1, 0, 0, 1]"
    using causal_tiles by (simp add: P_def S_def elem_to_int_tmap elem_mask_block_sum)
qed

lemma causal_built:
  defines "S \<equiv> mask_block_sum 128 128 causal_mask"
  defines "F \<equiv> to_int (tmap (\<lambda>s. s = int (128 * 128)) S)"
  defines "P \<equiv> to_int (tmap (\<lambda>s. 0 < s \<and> s < int (128 * 128)) S)"
  shows "causal_block_mask =
     Inr \<lparr>full_kv_num_blocks = sum_dim 3 F,
          full_kv_indices = argsort_dim 3 F,
          full_q_num_blocks = sum_dim 2 F,
          full_q_indices = permute_0132 (argsort_dim 2 F),
          partial_kv_num_blocks = sum_dim 3 P,
          partial_kv_indices = argsort_dim 3 P,
          partial_q_num_blocks = sum_dim 2 P,
          partial_q_indices = permute_0132 (argsort_dim 2 P),
          KV_BLOCK_SIZE = 128, Q_BLOCK_SIZE = 128, mask_fn = Some causal_fn\<rparr>"
proof -
  have c: "call4 causal_fn = Some (\<lambda>b h q_idx kv_idx. kv_idx \<le> q_idx)"
    by (simp add: causal_fn_def)
  have n: "length (filter default_is_empty (parameters causal_fn)) \<noteq> 5"
    by (simp add: causal_fn_def)
  have "causal_block_mask = create_block_mask_inner causal_fn 1 1 256 256 128 128 False"
    unfolding causal_block_mask_def by (rule create_block_mask_not_5[OF n])
  also note built_mask_fn[OF c, of 128 128 256 256 1 1]
  finally show ?thesis
    by (simp add: S_def F_def P_def causal_mask_def)
qed

lemma causal_counts:
  "\<exists>bm. causal_block_mask = Inr bm
     \<and> tsum (full_kv_num_blocks bm) = 1 \<and> tsum (partial_kv_num_blocks bm) = 2
     \<and> sparsity bm = Inr 25"
proof -
  define S where "S = mask_block_sum 128 128 causal_mask"
  define F where "F = to_int (tmap (\<lambda>s. s = int (128 * 128)) S)"
  define P where "P = to_int (tmap (\<lambda>s. 0 < s \<and> s < int (128 * 128)) S)"
  define bm where "bm =
        \<lparr>full_kv_num_blocks = sum_dim 3 F,
          full_kv_indices = argsort_dim 3 F,
          full_q_num_blocks = sum_dim 2 F,
          full_q_indices = permute_0132 (argsort_dim 2 F),
          partial_kv_num_blocks = sum_dim 3 P,
          partial_kv_indices = argsort_dim 3 P,
          partial_q_num_blocks = sum_dim 2 P,
          partial_q_indices = permute_0132 (argsort_dim 2 P),
          KV_BLOCK_SIZE = 128, Q_BLOCK_SIZE = 128, mask_fn = Some causal_fn\<rparr>"
  have b: "causal_block_mask = Inr bm"
    using causal_built by (simp add: bm_def F_def P_def S_def)
  have shF: "shape F = [1, 1, 2, 2]" and shP: "shape P = [1, 1, 2, 2]"
    and eF: "map (elem F) [[0, 0, 0, 0], [0, 0, 0, 1], [0, 0, 1, 0], [0, 0, 1, 1]] = [0, 0, 1, 0]"
    and eP: "map (elem P) [[0, 0, 0, 0], [0, 0, 0, 1], [0, 0, 1, 0], [0, 0, 1, 1]] = [1, 0, 0, 1]"
    using causal_grids by (simp_all add: F_def P_def S_def)
  have "tsum (sum_dim 3 F) = sum_all [1, 1, 2, 2] (elem F)"
    by (rule tsum_sum_dim_3[OF shF])
  also have "\<dots> = elem F [0, 0, 0, 0] + elem F [0, 0, 0, 1] + elem F [0, 0, 1, 0] + elem F [0, 0, 1, 1]"
    by (rule sum_all_1122)
  also have "\<dots> = 1" using eF by simp
  finally have tf: "tsum (full_kv_num_blocks bm) = 1" by (simp add: bm_def)
  have "tsum (sum_dim 3 P) = sum_all [1, 1, 2, 2] (elem P)"
    by (rule tsum_sum_dim_3[OF shP])
  also have "\<dots> = elem P [0, 0, 0, 0] + elem P [0, 0, 0, 1] + elem P [0, 0, 1, 0] + elem P [0, 0, 1, 1]"
    by (rule sum_all_1122)
  also have "\<dots> = 2" using eP by simp
  finally have tp: "tsum (partial_kv_num_blocks bm) = 2" by (simp add: bm_def)
  have n: "tsum (full_kv_num_blocks bm) + tsum (partial_kv_num_blocks bm) = 3"
    using tf tp by simp
  have "sparsity bm = Inr (100 * (1 - real_of_int 3 / real (1 * 1 * 2 * 2)))"
    by (rule sparsity_formula[where kvb = 128 and qb = 128, OF _ _ _ _ _ _ _ _ _ _ _ n])
       (simp_all add: bm_def shape_compressed[OF shF])
  then have "sparsity bm = Inr 25" by simp
  then show ?thesis using b tf tp by blast
qed

subsection \<open>The diagonal mask of 256 positions\<close>

lemma diagonal_tiles:
  "tile_count diagonal_mask 128 128 0 0 0 1 = 0"
  "tile_count diagonal_mask 128 128 0 0 1 0 = 0"
  "0 < tile_count diagonal_mask 128 128 0 0 0 0"
  "tile_count diagonal_mask 128 128 0 0 0 0 < int (128 * 128)"
  "0 < tile_count diagonal_mask 128 128 0 0 1 1"
  "tile_count diagonal_mask 128 128 0 0 1 1 < int (128 * 128)"
proof -
  show "tile_count diagonal_mask 128 128 0 0 0 1 = 0"
    unfolding tile_count_zero_iff by (simp add: diagonal_mask_def elem_vmap_grid)
  show "tile_count diagonal_mask 128 128 0 0 1 0 = 0"
    unfolding tile_count_zero_iff by (simp add: diagonal_mask_def elem_vmap_grid)
  have e00: "elem diagonal_mask [0, 0, 0 * 128 + 0, 0 * 128 + 0]"
    and n01: "\<not> elem diagonal_mask [0, 0, 0 * 128 + 0, 0 * 128 + 1]"
    and e11: "elem diagonal_mask [0, 0, 1 * 128 + 0, 1 * 128 + 0]"
    and n11: "\<not> elem diagonal_mask [0, 0, 1 * 128 + 0, 1 * 128 + 1]"
    by (simp_all add: diagonal_mask_def elem_vmap_grid)
  show "0 < tile_count diagonal_mask 128 128 0 0 0 0"
    unfolding tile_count_pos_iff using e00 by (intro exI[of _ 0] conjI) simp_all
  show "0 < tile_count diagonal_mask 128 128 0 0 1 1"
    unfolding tile_count_pos_iff using e11 by (intro exI[of _ 0] conjI) simp_all
  have "tile_count diagonal_mask 128 128 0 0 0 0 \<noteq> int (128 * 128)"
    unfolding tile_count_full_iff
  proof
    assume "\<forall>i<128. \<forall>j<128. elem diagonal_mask [0, 0, 0 * 128 + i, 0 * 128 + j]"
    from this[rule_format, of 0 1] n01 show False by simp
  qed
  then show "tile_count diagonal_mask 128 128 0 0 0 0 < int (128 * 128)"
    using tile_count_bounds[of diagonal_mask 128 128 0 0 0 0] by linarith
  have "tile_count diagonal_mask 128 128 0 0 1 1 \<noteq> int (128 * 128)"
    unfolding tile_count_full_iff
  proof
    assume "\<forall>i<128. \<forall>j<128. elem diagonal_mask [0, 0, 1 * 128 + i, 1 * 128 + j]"
    from this[rule_format, of 0 1] n11 show False by simp
  qed
  then show "tile_count diagonal_mask 128 128 0 0 1 1 < int (128 * 128)"
    using tile_count_bounds[of diagonal_mask 128 128 0 0 1 1] by linarith
qed

lemma diagonal_grids:
  defines "S \<equiv> mask_block_sum 128 128 diagonal_mask"
  defines "F \<equiv> to_int (tmap (\<lambda>s. s = int (128 * 128)) S)"
  defines "P \<equiv> to_int (tmap (\<lambda>s. 0 < s \<and> s < int (128 * 128)) S)"
  shows "shape F = [1, 1, 2, 2]" and "shape P = [1, 1, 2, 2]"
    and "elem F [0, 0, 0, 0] = 0" "elem F [0, 0, 0, 1] = 0"
        "elem F [0, 0, 1, 0] = 0" "elem F [0, 0, 1, 1] = 0"
    and "elem P [0, 0, 0, 0] = 1" "elem P [0, 0, 0, 1] = 0"
        "elem P [0, 0, 1, 0] = 0" "elem P [0, 0, 1, 1] = 1"
proof -
  have sh: "shape diagonal_mask = [1, 1, 256, 256]"
    by (simp add: diagonal_mask_def vmap_grid_def)
  show "shape F = [1, 1, 2, 2]" "shape P = [1, 1, 2, 2]"
    by (simp_all add: F_def P_def S_def shape_to_int_tmap shape_mask_block_sum[OF sh])
  show "elem F [0, 0, 0, 0] = 0" "elem F [0, 0, 0, 1] = 0"
       "elem F [0, 0, 1, 0] = 0" "elem F [0, 0, 1, 1] = 0"
    using diagonal_tiles by (simp_all add: F_def S_def elem_to_int_tmap elem_mask_block_sum)
  show "elem P [0, 0, 0, 0] = 1" "elem P [0, 0, 0, 1] = 0"
       "elem P [0, 0, 1, 0] = 0" "elem P [0, 0, 1, 1] = 1"
    using diagonal_tiles by (simp_all add: P_def S_def elem_to_int_tmap elem_mask_block_sum)
qed

lemma diagonal_built:
  defines "S \<equiv> mask_block_sum 128 128 diagonal_mask"
  defines "F \<equiv> to_int (tmap (\<lambda>s. s = int (128 * 128)) S)"
  defines "P \<equiv> to_int (tmap (\<lambda>s. 0 < s \<and> s < int (128 * 128)) S)"
  shows "diagonal_block_mask =
     Inr \<lparr>full_kv_num_blocks = sum_dim 3 F,
          full_kv_indices = argsort_dim 3 F,
          full_q_num_blocks = sum_dim 2 F,
          full_q_indices = permute_0132 (argsort_dim 2 F),
          partial_kv_num_blocks = sum_dim 3 P,
          partial_kv_indices = argsort_dim 3 P,
          partial_q_num_blocks = sum_dim 2 P,
          partial_q_indices = permute_0132 (argsort_dim 2 P),
          KV_BLOCK_SIZE = 128, Q_BLOCK_SIZE = 128, mask_fn = Some diagonal_fn\<rparr>"
proof -
  have c: "call4 diagonal_fn = Some (\<lambda>b h q_idx kv_idx. q_idx = kv_idx)"
    by (simp add: diagonal_fn_def)
  have n: "length (filter default_is_empty (parameters diagonal_fn)) \<noteq> 5"
    by (simp add: diagonal_fn_def)
  have "diagonal_block_mask = create_block_mask_inner diagonal_fn 1 1 256 256 128 128 False"
    unfolding diagonal_block_mask_def by (rule create_block_mask_not_5[OF n])
  also note built_mask_fn[OF c, of 128 128 256 256 1 1]
  finally show ?thesis
    by (simp add: S_def F_def P_def diagonal_mask_def)
qed

lemma argsort_00: "argsort_desc_stable [0, 0] = [0, 1]"
  by (simp add: argsort_desc_stable_def upt_rec)

lemma all_indices_11: "all_indices [1, 1] = [[0, 0]]"
  by (simp add: upt_rec)

lemma broadcast_rev_same: "broadcast_rev xs xs = Some xs"
  by (induction xs) simp_all

lemma broadcast_shapes_same: "broadcast_shapes xs xs = Some xs"
  by (simp add: broadcast_shapes_def broadcast_rev_same)

lemma bcast_index_3: "r < R \<Longrightarrow> bcast_index [Suc 0, Suc 0, R] [0, 0, r] = [0, 0, r]"
  by (simp add: bcast_index_def)

lemma diagonal_to_dense:
  "\<exists>bm d. diagonal_block_mask = Inr bm \<and> to_dense bm = Inr d
     \<and> elem d [0, 0, 1, 0] = 1 \<and> elem d [0, 0, 1, 1] = 0"
proof -
  define S where "S = mask_block_sum 128 128 diagonal_mask"
  define F where "F = to_int (tmap (\<lambda>s. s = int (128 * 128)) S)"
  define P where "P = to_int (tmap (\<lambda>s. 0 < s \<and> s < int (128 * 128)) S)"
  define bm where "bm =
        \<lparr>full_kv_num_blocks = sum_dim 3 F,
          full_kv_indices = argsort_dim 3 F,
          full_q_num_blocks = sum_dim 2 F,
          full_q_indices = permute_0132 (argsort_dim 2 F),
          partial_kv_num_blocks = sum_dim 3 P,
          partial_kv_indices = argsort_dim 3 P,
          partial_q_num_blocks = sum_dim 2 P,
          partial_q_indices = permute_0132 (argsort_dim 2 P),
          KV_BLOCK_SIZE = 128, Q_BLOCK_SIZE = 128, mask_fn = Some diagonal_fn\<rparr>"
  define K where "K = \<lparr>shape = [1, 1, 2],
       elem = (\<lambda>idx. elem (sum_dim 3 F) (bcast_index [1, 1, 2] idx)
                     + elem (sum_dim 3 P) (bcast_index [1, 1, 2] idx))\<rparr>"
  have b: "diagonal_block_mask = Inr bm"
    using diagonal_built by (simp add: bm_def F_def P_def S_def)
  have shF: "shape F = [1, 1, 2, 2]" and shP: "shape P = [1, 1, 2, 2]"
    and eF: "elem F [0, 0, 0, 0] = 0" "elem F [0, 0, 0, 1] = 0"
            "elem F [0, 0, 1, 0] = 0" "elem F [0, 0, 1, 1] = 0"
    and eP: "elem P [0, 0, 0, 0] = 1" "elem P [0, 0, 0, 1] = 0"
            "elem P [0, 0, 1, 0] = 0" "elem P [0, 0, 1, 1] = 1"
    using diagonal_grids by (simp_all add: F_def P_def S_def)
  note shc = shape_compressed[OF shF] shape_compressed[OF shP]
  have add: "tensor_add (sum_dim 3 F) (sum_dim 3 P) = Inr K"
    by (simp add: tensor_add_def shc broadcast_shapes_same K_def)
  have cnt: "elem K [0, 0, 0] = 1" "elem K [0, 0, 1] = 1"
    using eF eP
    by (simp_all add: K_def bcast_index_3 elem_sum_dim_3[OF shF] elem_sum_dim_3[OF shP] upt_rec)
  have row: "map (\<lambda>c. elem F [0, 0, 0, c]) [0..<2] = [0, 0]"
    "map (\<lambda>c. elem F [0, 0, 1, c]) [0..<2] = [0, 0]"
    using eF by (simp_all add: upt_rec)
  have idx: "elem (argsort_dim 3 F) [0, 0, 0, 0] = 0" "elem (argsort_dim 3 F) [0, 0, 0, 1] = 1"
    "elem (argsort_dim 3 F) [0, 0, 1, 0] = 0" "elem (argsort_dim 3 F) [0, 0, 1, 1] = 1"
    using row by (simp_all add: elem_argsort_dim_3[OF shF] argsort_00)
  have v: "valid_index 2 (select [0, 0] K) (select [0, 0] (argsort_dim 3 F)) 0 0 = 0"
    "valid_index 2 (select [0, 0] K) (select [0, 0] (argsort_dim 3 F)) 0 1 = 2"
    "valid_index 2 (select [0, 0] K) (select [0, 0] (argsort_dim 3 F)) 1 0 = 0"
    "valid_index 2 (select [0, 0] K) (select [0, 0] (argsort_dim 3 F)) 1 1 = 2"
    using cnt idx by (simp_all add: valid_index_def select_def)
  have w: "wrap_index 0 (Suc 2) = Some 0" "wrap_index 2 (Suc 2) = Some 2"
    by (simp_all add: wrap_index_def)
  have guard: "\<not> list_ex (\<lambda>bi. list_ex (\<lambda>r. list_ex (\<lambda>k.
        wrap_index (valid_index 2 (select bi K) (select bi (argsort_dim 3 F)) r k) (Suc 2) = None)
      [0..<2]) [0..<2]) (all_indices [1, 1])"
    using v w by (simp add: all_indices_11 upt_rec)
  define d where "d = \<lparr>shape = [1, 1] @ [2, 2],
        elem = (\<lambda>idx. let bi = take (length [1::nat, 1]) idx in
                  elem (create_dense_one 2 2 (select bi K) (select bi (argsort_dim 3 F)))
                       (drop (length [1::nat, 1]) idx))\<rparr>"
  have td: "to_dense bm = Inr d"
    using guard
    by (simp add: to_dense_def bm_def shc dim_def add K_def[symmetric] d_def argsort_dim_def[of 3 F, THEN arg_cong[where f=shape]] shF K_def[THEN arg_cong[where f=shape]])
  have e10: "elem d [0, 0, 1, 0] = 1"
    using v w by (simp add: d_def create_dense_one_def upt_rec)
  have e11: "elem d [0, 0, 1, 1] = 0"
    using v w by (simp add: d_def create_dense_one_def upt_rec)
  show ?thesis using b td e10 e11 by blast
qed


text \<open>
  C3. \<open>to_dense\<close> is meant to give back the tile-level grid of the dense mask (a tile set iff
  it is FULL or PARTIAL). It takes each row's count from the full and the partial arrays
  together, but the positions from the full index array alone. For the diagonal mask over
  256 by 256 positions with block size 128, tile row 1 holds an EMPTY tile at column 0 and a
  PARTIAL tile at column 1; \<open>to_dense\<close> sets the EMPTY tile and leaves the PARTIAL tile unset.
\<close>

theorem to_dense_misplaces_partial_tile:
  "\<exists>bm d.
     create_mask_from_mask_fn diagonal_fn 1 1 256 256 = Inr diagonal_mask
     \<and> create_block_mask diagonal_fn 1 1 256 256 128 128 = Inr bm
     \<and> to_dense bm = Inr d
     \<and> tile_count diagonal_mask 128 128 0 0 1 0 = 0 \<and> elem d [0, 0, 1, 0] = 1
     \<and> 0 < tile_count diagonal_mask 128 128 0 0 1 1 \<and> elem d [0, 0, 1, 1] = 0"
proof -
  have m: "create_mask_from_mask_fn diagonal_fn 1 1 256 256 = Inr diagonal_mask"
    by (simp add: create_mask_from_mask_fn_def diagonal_fn_def diagonal_mask_def)
  from diagonal_to_dense obtain bm d where
    r: "create_block_mask diagonal_fn 1 1 256 256 128 128 = Inr bm" "to_dense bm = Inr d"
      "elem d [0, 0, 1, 0] = 1" "elem d [0, 0, 1, 1] = 0"
    unfolding diagonal_block_mask_def by blast
  show ?thesis
    by (intro exI conjI) (rule m r diagonal_tiles)+
qed

subsection \<open>Sparsity at concrete masks\<close>

lemma causal_tile:
  "0 < tile_count causal_tile_mask 128 128 0 0 0 0"
  "tile_count causal_tile_mask 128 128 0 0 0 0 < int (128 * 128)"
proof -
  have e00: "elem causal_tile_mask [0, 0, 0 * 128 + 0, 0 * 128 + 0]"
    and n01: "\<not> elem causal_tile_mask [0, 0, 0 * 128 + 0, 0 * 128 + 1]"
    by (simp_all add: causal_tile_mask_def elem_vmap_grid)
  show "0 < tile_count causal_tile_mask 128 128 0 0 0 0"
    unfolding tile_count_pos_iff using e00 by (intro exI[of _ 0] conjI) simp_all
  have "tile_count causal_tile_mask 128 128 0 0 0 0 \<noteq> int (128 * 128)"
    unfolding tile_count_full_iff
  proof
    assume "\<forall>i<128. \<forall>j<128. elem causal_tile_mask [0, 0, 0 * 128 + i, 0 * 128 + j]"
    from this[rule_format, of 0 1] n01 show False by simp
  qed
  then show "tile_count causal_tile_mask 128 128 0 0 0 0 < int (128 * 128)"
    using tile_count_bounds[of causal_tile_mask 128 128 0 0 0 0] by linarith
qed

lemma sum_all_1111: "sum_all [1, 1, 1, 1] f = f [0, 0, 0, 0]"
  by simp

lemma causal_tile_sparsity:
  "\<exists>bm. causal_tile_block_mask = Inr bm \<and> tsum (full_kv_num_blocks bm) = 0
     \<and> sparsity bm = Inr 0"
proof -
  define S where "S = mask_block_sum 128 128 causal_tile_mask"
  define F where "F = to_int (tmap (\<lambda>s. s = int (128 * 128)) S)"
  define P where "P = to_int (tmap (\<lambda>s. 0 < s \<and> s < int (128 * 128)) S)"
  define bm where "bm =
        \<lparr>full_kv_num_blocks = sum_dim 3 F,
          full_kv_indices = argsort_dim 3 F,
          full_q_num_blocks = sum_dim 2 F,
          full_q_indices = permute_0132 (argsort_dim 2 F),
          partial_kv_num_blocks = sum_dim 3 P,
          partial_kv_indices = argsort_dim 3 P,
          partial_q_num_blocks = sum_dim 2 P,
          partial_q_indices = permute_0132 (argsort_dim 2 P),
          KV_BLOCK_SIZE = 128, Q_BLOCK_SIZE = 128, mask_fn = Some causal_fn\<rparr>"
  have c: "call4 causal_fn = Some (\<lambda>b h q_idx kv_idx. kv_idx \<le> q_idx)"
    by (simp add: causal_fn_def)
  have n5: "length (filter default_is_empty (parameters causal_fn)) \<noteq> 5"
    by (simp add: causal_fn_def)
  have "causal_tile_block_mask = create_block_mask_inner causal_fn 1 1 128 128 128 128 False"
    unfolding causal_tile_block_mask_def by (rule create_block_mask_not_5[OF n5])
  also note built_mask_fn[OF c, of 128 128 128 128 1 1]
  finally have b: "causal_tile_block_mask = Inr bm"
    by (simp add: bm_def S_def F_def P_def causal_tile_mask_def)
  have sh: "shape causal_tile_mask = [1, 1, 128, 128]"
    by (simp add: causal_tile_mask_def vmap_grid_def)
  have shF: "shape F = [1, 1, 1, 1]" and shP: "shape P = [1, 1, 1, 1]"
    by (simp_all add: F_def P_def S_def shape_to_int_tmap shape_mask_block_sum[OF sh])
  have eF: "elem F [0, 0, 0, 0] = 0" and eP: "elem P [0, 0, 0, 0] = 1"
    using causal_tile by (simp_all add: F_def P_def S_def elem_to_int_tmap elem_mask_block_sum)
  have "tsum (sum_dim 3 F) = sum_all [1, 1, 1, 1] (elem F)"
    by (rule tsum_sum_dim_3[OF shF])
  also have "\<dots> = 0" by (simp only: sum_all_1111 eF)
  finally have tf: "tsum (full_kv_num_blocks bm) = 0" by (simp add: bm_def)
  have "tsum (sum_dim 3 P) = sum_all [1, 1, 1, 1] (elem P)"
    by (rule tsum_sum_dim_3[OF shP])
  also have "\<dots> = 1" by (simp only: sum_all_1111 eP)
  finally have tp: "tsum (partial_kv_num_blocks bm) = 1" by (simp add: bm_def)
  have n: "tsum (full_kv_num_blocks bm) + tsum (partial_kv_num_blocks bm) = 1"
    using tf tp by simp
  have "sparsity bm = Inr (100 * (1 - real_of_int 1 / real (1 * 1 * 1 * 1)))"
    by (rule sparsity_formula[where kvb = 128 and qb = 128, OF _ _ _ _ _ _ _ _ _ _ _ n])
       (simp_all add: bm_def shape_compressed[OF shF])
  then have "sparsity bm = Inr 0" by simp
  then show ?thesis using b tf by blast
qed

lemma overfull_sparsity:
  "\<exists>bm. overfull_block_mask = Inr bm \<and> sparsity bm = Inr (- 400)"
  by (simp add: overfull_block_mask_def BlockMask_init_def dim_def zeros_def sparsity_def
      numel_def bm_shape_def tsum_def Let_def)

text \<open>
  C6, as stated, fails twice. The BlockMask of the causal mask over 128 by 128 positions
  (one tile, PARTIAL, so the dense mask is not all-full and no tile is FULL) has sparsity 0.
  And the constructor accepts arrays whose counts are out of proportion: the sparsity of a
  BlockMask of one tile with count 5 is -400.
\<close>

theorem sparsity_zero_counterexample:
  "\<not> isl causal_tile_block_mask
   \<and> sparsity (projr causal_tile_block_mask) = Inr 0
   \<and> tsum (full_kv_num_blocks (projr causal_tile_block_mask)) = 0
   \<and> \<not> elem causal_tile_mask [0, 0, 0, 1]
   \<and> \<not> isl overfull_block_mask
   \<and> sparsity (projr overfull_block_mask) = Inr (- 400)"
proof -
  from causal_tile_sparsity obtain bm where b: "causal_tile_block_mask = Inr bm"
    and f: "tsum (full_kv_num_blocks bm) = 0" and s: "sparsity bm = Inr 0" by blast
  from overfull_sparsity obtain bm' where b': "overfull_block_mask = Inr bm'"
    and s': "sparsity bm' = Inr (- 400)" by blast
  have e: "\<not> elem causal_tile_mask [0, 0, 0, 1]"
    by (simp add: causal_tile_mask_def elem_vmap_grid)
  show ?thesis unfolding b b' using f s s' e by simp
qed

theorem sparsity_of_built_mask_witness:
  "\<exists>bm s. create_block_mask_inner causal_fn 1 1 256 256 128 128 False = Inr bm
     \<and> sparsity bm = Inr s \<and> 0 \<le> s \<and> s \<le> 100 \<and> s \<noteq> 0"
proof -
  have x: "(if False then create_mask_from_score_mod causal_fn 1 1 256 256
            else create_mask_from_mask_fn causal_fn 1 1 256 256) = Inr causal_mask"
    by (simp add: create_mask_from_mask_fn_def causal_fn_def causal_mask_def)
  from sparsity_of_built_mask[OF x, of 128 128]
  obtain bm s where r: "create_block_mask_inner causal_fn 1 1 256 256 128 128 False = Inr bm"
    "sparsity bm = Inr s" "0 \<le> s" "s \<le> 100"
    and z: "s = 0 \<longleftrightarrow> (\<forall>b<1. \<forall>h<1. \<forall>r<256 div 128. \<forall>c<256 div 128.
                0 < tile_count causal_mask 128 128 b h r c)"
    by auto
  have "\<not> (\<forall>b<1. \<forall>h<1. \<forall>r<256 div 128. \<forall>c<256 div 128.
                0 < tile_count causal_mask 128 128 b h r c)"
  proof
    assume "\<forall>b<1. \<forall>h<1. \<forall>r<256 div 128. \<forall>c<256 div 128.
                0 < tile_count causal_mask 128 128 b h r c"
    from this[rule_format, of 0 0 0 1] causal_tiles(2) show False by simp
  qed
  then have "s \<noteq> 0" using z by simp
  then show ?thesis using r by blast
qed

subsection \<open>The dispatch on the number of required parameters\<close>

lemma built_score_mod:
  fixes B H M N Qb KVb :: nat
  assumes g: "call5 fn = Some g" and bs: "0 < Qb" "0 < KVb" "M mod Qb = 0" "N mod KVb = 0"
  defines "x \<equiv> tmap (\<lambda>s. if isneginf s then False else True) (vmap_grid g B H M N)"
  defines "F \<equiv> to_int (tmap (\<lambda>s. 0 < s) (mask_block_sum Qb KVb x))"
  shows "create_block_mask_inner fn B H M N KVb Qb True =
     Inr \<lparr>full_kv_num_blocks = sum_dim 3 F,
          full_kv_indices = argsort_dim 3 F,
          full_q_num_blocks = sum_dim 2 F,
          full_q_indices = permute_0132 (argsort_dim 2 F),
          partial_kv_num_blocks = zeros [1, 1, 1],
          partial_kv_indices = zeros [1, 1, 1, 1],
          partial_q_num_blocks = zeros [1, 1, 1],
          partial_q_indices = zeros [1, 1, 1, 1],
          KV_BLOCK_SIZE = 128, Q_BLOCK_SIZE = 128, mask_fn = None\<rparr>"
proof -
  have x: "(if True then create_mask_from_score_mod fn B H M N
            else create_mask_from_mask_fn fn B H M N) = Inr x"
    by (simp add: create_mask_from_score_mod_def g x_def)
  have sh: "shape x = [B, H, M, N]" by (simp add: x_def tmap_def vmap_grid_def)
  have shg: "shape F = [B, H, M div Qb, N div KVb]"
    by (simp add: F_def shape_to_int_tmap shape_mask_block_sum[OF sh])
  show ?thesis
    using built_block_mask[OF x bs] sparse_None[OF shg]
    by (simp add: F_def DEFAULT_SPARSE_BLOCK_SIZE_def)
qed

lemma inner_call_fails:
  "call5 fn = None \<Longrightarrow> create_block_mask_inner fn B H M N KVb Qb True = Inl TypeError"
  "call4 fn = None \<Longrightarrow> create_block_mask_inner fn B H M N KVb Qb False = Inl TypeError"
  by (simp_all add: create_block_mask_inner_def create_mask_from_score_mod_def
      create_mask_from_mask_fn_def)

text \<open>
  C2, as stated, fails: a function with three required parameters is not rejected. It is
  taken as a mask function, and the BlockMask is built.
\<close>

theorem three_required_counterexample:
  "length (filter default_is_empty (parameters three_required_fn)) = 3
   \<and> \<not> isl (create_block_mask three_required_fn 1 1 256 256 128 128)
   \<and> mask_fn (projr (create_block_mask three_required_fn 1 1 256 256 128 128))
       = Some three_required_fn"
proof -
  have c: "call4 three_required_fn = Some (\<lambda>b h q_idx kv_idx. kv_idx \<le> q_idx)"
    and n: "length (filter default_is_empty (parameters three_required_fn)) = 3"
    by (simp_all add: three_required_fn_def)
  have n5: "length (filter default_is_empty (parameters three_required_fn)) \<noteq> 5"
    using n by simp
  have "create_block_mask three_required_fn 1 1 256 256 128 128
          = create_block_mask_inner three_required_fn 1 1 256 256 128 128 False"
    by (rule create_block_mask_not_5[OF n5])
  also note built_mask_fn[OF c, of 128 128 256 256 1 1]
  finally obtain bm where b: "create_block_mask three_required_fn 1 1 256 256 128 128 = Inr bm"
    and m: "mask_fn bm = Some three_required_fn"
    by simp
  show ?thesis unfolding b using n m by simp
qed

text \<open>
  C2, as the code has it. The builder raises no error of its own for any number of required
  parameters. With exactly five, the function is called as a score function: no mask
  function is retained and the partial arrays are the all-zero placeholders (no PARTIAL
  class). With any other number, four or not, the function is called as a mask function:
  it is retained on the BlockMask, and the partial count of a tile row is the number of its
  tiles whose boolean-count is neither 0 nor the whole tile. A function that cannot be
  called with the arguments of its path makes the build fail with Python's TypeError.
\<close>

theorem create_block_mask_dispatch:
  assumes "0 < Qb" and "0 < KVb" and "M mod Qb = 0" and "N mod KVb = 0"
  shows "(length (filter default_is_empty (parameters fn)) = 5 \<longrightarrow>
           (case call5 fn of
              None \<Rightarrow> create_block_mask fn B H M N KVb Qb = Inl TypeError
            | Some g \<Rightarrow>
                (\<exists>bm. create_block_mask fn B H M N KVb Qb = Inr bm \<and> mask_fn bm = None
                   \<and> partial_kv_num_blocks bm = zeros [1, 1, 1]
                   \<and> partial_kv_indices bm = zeros [1, 1, 1, 1]
                   \<and> partial_q_num_blocks bm = zeros [1, 1, 1]
                   \<and> partial_q_indices bm = zeros [1, 1, 1, 1])))
       \<and> (length (filter default_is_empty (parameters fn)) \<noteq> 5 \<longrightarrow>
           (case call4 fn of
              None \<Rightarrow> create_block_mask fn B H M N KVb Qb = Inl TypeError
            | Some f \<Rightarrow>
                (\<exists>bm. create_block_mask fn B H M N KVb Qb = Inr bm \<and> mask_fn bm = Some fn
                   \<and> shape (partial_kv_num_blocks bm) = [B, H, M div Qb]
                   \<and> (\<forall>b<B. \<forall>h<H. \<forall>r<M div Qb.
                         elem (partial_kv_num_blocks bm) [b, h, r] =
                           int (length (filter
                             (\<lambda>c. 0 < tile_count (vmap_grid f B H M N) Qb KVb b h r c
                                  \<and> tile_count (vmap_grid f B H M N) Qb KVb b h r c < int (Qb * KVb))
                             [0..<N div KVb]))))))"
proof (intro conjI impI)
  assume n: "length (filter default_is_empty (parameters fn)) = 5"
  show "case call5 fn of
          None \<Rightarrow> create_block_mask fn B H M N KVb Qb = Inl TypeError
        | Some g \<Rightarrow>
            (\<exists>bm. create_block_mask fn B H M N KVb Qb = Inr bm \<and> mask_fn bm = None
               \<and> partial_kv_num_blocks bm = zeros [1, 1, 1]
               \<and> partial_kv_indices bm = zeros [1, 1, 1, 1]
               \<and> partial_q_num_blocks bm = zeros [1, 1, 1]
               \<and> partial_q_indices bm = zeros [1, 1, 1, 1])"
  proof (cases "call5 fn")
    case None
    then show ?thesis
      by (simp add: create_block_mask_5[OF n] inner_call_fails)
  next
    case (Some g)
    then show ?thesis
      by (simp add: create_block_mask_5[OF n] built_score_mod[OF Some assms])
  qed
next
  assume n: "length (filter default_is_empty (parameters fn)) \<noteq> 5"
  show "case call4 fn of
          None \<Rightarrow> create_block_mask fn B H M N KVb Qb = Inl TypeError
        | Some f \<Rightarrow>
            (\<exists>bm. create_block_mask fn B H M N KVb Qb = Inr bm \<and> mask_fn bm = Some fn
               \<and> shape (partial_kv_num_blocks bm) = [B, H, M div Qb]
               \<and> (\<forall>b<B. \<forall>h<H. \<forall>r<M div Qb.
                     elem (partial_kv_num_blocks bm) [b, h, r] =
                       int (length (filter
                         (\<lambda>c. 0 < tile_count (vmap_grid f B H M N) Qb KVb b h r c
                              \<and> tile_count (vmap_grid f B H M N) Qb KVb b h r c < int (Qb * KVb))
                         [0..<N div KVb]))))"
  proof (cases "call4 fn")
    case None
    then show ?thesis
      by (simp add: create_block_mask_not_5[OF n] inner_call_fails)
  next
    case (Some f)
    let ?x = "vmap_grid f B H M N"
    let ?P = "to_int (tmap (\<lambda>s. 0 < s \<and> s < int (Qb * KVb)) (mask_block_sum Qb KVb ?x))"
    have sh: "shape ?x = [B, H, M, N]" by (simp add: vmap_grid_def)
    have shP: "shape ?P = [B, H, M div Qb, N div KVb]"
      by (simp add: shape_to_int_tmap shape_mask_block_sum[OF sh])
    have cnt: "elem (sum_dim 3 ?P) [b, h, r] =
        int (length (filter
          (\<lambda>c. 0 < tile_count ?x Qb KVb b h r c \<and> tile_count ?x Qb KVb b h r c < int (Qb * KVb))
          [0..<N div KVb]))" for b h r
    proof -
      have "(\<Sum>k\<leftarrow>[0..<N div KVb]. elem ?P [b, h, r, k])
          = int (length (filter (\<lambda>k. elem ?P [b, h, r, k] = 1) [0..<N div KVb]))"
        by (rule sum_list_flags_count) (simp add: elem_to_int_tmap)
      also have "filter (\<lambda>k. elem ?P [b, h, r, k] = 1) [0..<N div KVb]
          = filter (\<lambda>c. 0 < tile_count ?x Qb KVb b h r c
                      \<and> tile_count ?x Qb KVb b h r c < int (Qb * KVb)) [0..<N div KVb]"
        by (rule filter_cong) (simp_all add: elem_to_int_tmap elem_mask_block_sum)
      finally show ?thesis by (simp only: elem_sum_dim_3[OF shP])
    qed
    let ?F = "to_int (tmap (\<lambda>s. s = int (Qb * KVb)) (mask_block_sum Qb KVb ?x))"
    define bm where "bm =
        \<lparr>full_kv_num_blocks = sum_dim 3 ?F,
          full_kv_indices = argsort_dim 3 ?F,
          full_q_num_blocks = sum_dim 2 ?F,
          full_q_indices = permute_0132 (argsort_dim 2 ?F),
          partial_kv_num_blocks = sum_dim 3 ?P,
          partial_kv_indices = argsort_dim 3 ?P,
          partial_q_num_blocks = sum_dim 2 ?P,
          partial_q_indices = permute_0132 (argsort_dim 2 ?P),
          KV_BLOCK_SIZE = 128, Q_BLOCK_SIZE = 128, mask_fn = Some fn\<rparr>"
    have b: "create_block_mask fn B H M N KVb Qb = Inr bm"
      unfolding bm_def create_block_mask_not_5[OF n] by (rule built_mask_fn[OF Some assms])
    have m: "mask_fn bm = Some fn" and p: "partial_kv_num_blocks bm = sum_dim 3 ?P"
      by (simp_all add: bm_def)
    have s: "shape (partial_kv_num_blocks bm) = [B, H, M div Qb]"
      unfolding p by (rule shape_compressed(1)[OF shP])
    have c: "\<forall>b<B. \<forall>h<H. \<forall>r<M div Qb.
        elem (partial_kv_num_blocks bm) [b, h, r] =
          int (length (filter
            (\<lambda>c. 0 < tile_count ?x Qb KVb b h r c \<and> tile_count ?x Qb KVb b h r c < int (Qb * KVb))
            [0..<N div KVb]))"
      unfolding p by (intro allI impI) (rule cnt)
    show ?thesis
      unfolding Some option.case
      by (rule exI[of _ bm], intro conjI) (rule b m s c)+
  qed
qed

theorem create_block_mask_dispatch_witness:
  "(\<exists>bm. create_block_mask causal_score_mod 1 1 256 256 128 128 = Inr bm \<and> mask_fn bm = None
      \<and> partial_kv_num_blocks bm = zeros [1, 1, 1])
   \<and> (\<exists>bm. create_block_mask three_required_fn 1 1 256 256 128 128 = Inr bm
      \<and> mask_fn bm = Some three_required_fn
      \<and> shape (partial_kv_num_blocks bm) = [1, 1, 2])
   \<and> create_block_mask causal_fn 1 1 256 256 128 128
       \<noteq> create_block_mask causal_score_mod 1 1 256 256 128 128"
proof -
  have a5: "length (filter default_is_empty (parameters causal_score_mod)) = 5"
    and c5: "call5 causal_score_mod
               = Some (\<lambda>b h token_q token_kv. if token_kv \<le> token_q then NotNegInf else NegInf)"
    by (simp_all add: causal_score_mod_def)
  have a3: "length (filter default_is_empty (parameters three_required_fn)) \<noteq> 5"
    and c4: "call4 three_required_fn = Some (\<lambda>b h q_idx kv_idx. kv_idx \<le> q_idx)"
    by (simp_all add: three_required_fn_def)
  have a4: "length (filter default_is_empty (parameters causal_fn)) \<noteq> 5"
    and d4: "call4 causal_fn = Some (\<lambda>b h q_idx kv_idx. kv_idx \<le> q_idx)"
    by (simp_all add: causal_fn_def)
  have bs: "(0::nat) < 128" "(256::nat) mod 128 = 0" by simp_all
  note t5 = create_block_mask_dispatch[OF bs(1) bs(1) bs(2) bs(2), of causal_score_mod 1 1,
      THEN conjunct1, rule_format, OF a5, unfolded c5 option.case]
  note t3 = create_block_mask_dispatch[OF bs(1) bs(1) bs(2) bs(2), of three_required_fn 1 1,
      THEN conjunct2, rule_format, OF a3, unfolded c4 option.case]
  note t4 = create_block_mask_dispatch[OF bs(1) bs(1) bs(2) bs(2), of causal_fn 1 1,
      THEN conjunct2, rule_format, OF a4, unfolded d4 option.case]
  from t5 obtain bm5 where r5: "create_block_mask causal_score_mod 1 1 256 256 128 128 = Inr bm5"
    "mask_fn bm5 = None" "partial_kv_num_blocks bm5 = zeros [1, 1, 1]" by blast
  from t3 obtain bm3 where r3: "create_block_mask three_required_fn 1 1 256 256 128 128 = Inr bm3"
    "mask_fn bm3 = Some three_required_fn" "shape (partial_kv_num_blocks bm3) = [1, 1, 256 div 128]"
    by blast
  from t4 obtain bm4 where r4: "create_block_mask causal_fn 1 1 256 256 128 128 = Inr bm4"
    "mask_fn bm4 = Some causal_fn" by blast
  have ne: "create_block_mask causal_fn 1 1 256 256 128 128
       \<noteq> create_block_mask causal_score_mod 1 1 256 256 128 128"
    using r4 r5 by auto
  have s3: "shape (partial_kv_num_blocks bm3) = [1, 1, 2]" using r3(3) by simp
  show ?thesis
    using r5 r3(1,2) s3 ne by blast
qed

subsection \<open>The causal mask of 256 positions on both paths\<close>

lemma causal_score_mask:
  "create_mask_from_score_mod causal_score_mod 1 1 256 256 = Inr causal_mask"
  by (auto simp: create_mask_from_score_mod_def causal_score_mod_def causal_mask_def
      tmap_def vmap_grid_def isneginf_def fun_eq_iff)

lemma causal_score_grid:
  defines "F \<equiv> to_int (tmap (\<lambda>s. 0 < s) (mask_block_sum 128 128 causal_mask))"
  shows "shape F = [1, 1, 2, 2]"
    and "map (elem F) [[0, 0, 0, 0], [0, 0, 0, 1], [0, 0, 1, 0], [0, 0, 1, 1]] = [1, 0, 1, 1]"
proof -
  have sh: "shape causal_mask = [1, 1, 256, 256]"
    by (simp add: causal_mask_def vmap_grid_def)
  show "shape F = [1, 1, 2, 2]"
    by (simp add: F_def shape_to_int_tmap shape_mask_block_sum[OF sh])
  show "map (elem F) [[0, 0, 0, 0], [0, 0, 0, 1], [0, 0, 1, 0], [0, 0, 1, 1]] = [1, 0, 1, 1]"
    using causal_tiles by (simp add: F_def elem_to_int_tmap elem_mask_block_sum)
qed

lemma causal_score_counts:
  "\<exists>bm. causal_score_block_mask = Inr bm \<and> mask_fn bm = None
     \<and> tsum (full_kv_num_blocks bm) = 3 \<and> tsum (partial_kv_num_blocks bm) = 0
     \<and> sparsity bm = Inr 25"
proof -
  define F where "F = to_int (tmap (\<lambda>s. 0 < s) (mask_block_sum 128 128 causal_mask))"
  define bm where "bm =
        \<lparr>full_kv_num_blocks = sum_dim 3 F,
          full_kv_indices = argsort_dim 3 F,
          full_q_num_blocks = sum_dim 2 F,
          full_q_indices = permute_0132 (argsort_dim 2 F),
          partial_kv_num_blocks = zeros [1, 1, 1],
          partial_kv_indices = zeros [1, 1, 1, 1],
          partial_q_num_blocks = zeros [1, 1, 1],
          partial_q_indices = zeros [1, 1, 1, 1],
          KV_BLOCK_SIZE = 128, Q_BLOCK_SIZE = 128, mask_fn = None\<rparr>"
  have c: "call5 causal_score_mod
             = Some (\<lambda>b h token_q token_kv. if token_kv \<le> token_q then NotNegInf else NegInf)"
    and n5: "length (filter default_is_empty (parameters causal_score_mod)) = 5"
    by (simp_all add: causal_score_mod_def)
  have x: "tmap (\<lambda>s. if isneginf s then False else True)
             (vmap_grid (\<lambda>b h token_q token_kv. if token_kv \<le> token_q then NotNegInf else NegInf)
                1 1 256 256) = causal_mask"
    using causal_score_mask by (simp add: create_mask_from_score_mod_def c)
  have "causal_score_block_mask = create_block_mask_inner causal_score_mod 1 1 256 256 128 128 True"
    unfolding causal_score_block_mask_def by (rule create_block_mask_5[OF n5])
  also note built_score_mod[OF c, of 128 128 256 256 1 1]
  finally have b: "causal_score_block_mask = Inr bm"
    using x by (simp add: bm_def F_def)
  have shF: "shape F = [1, 1, 2, 2]"
    and eF: "map (elem F) [[0, 0, 0, 0], [0, 0, 0, 1], [0, 0, 1, 0], [0, 0, 1, 1]] = [1, 0, 1, 1]"
    using causal_score_grid by (simp_all add: F_def)
  have "tsum (sum_dim 3 F) = sum_all [1, 1, 2, 2] (elem F)"
    by (rule tsum_sum_dim_3[OF shF])
  also have "\<dots> = elem F [0, 0, 0, 0] + elem F [0, 0, 0, 1] + elem F [0, 0, 1, 0] + elem F [0, 0, 1, 1]"
    by (rule sum_all_1122)
  also have "\<dots> = 3" using eF by simp
  finally have tf: "tsum (full_kv_num_blocks bm) = 3" by (simp add: bm_def)
  have tp: "tsum (partial_kv_num_blocks bm) = 0" by (simp add: bm_def tsum_zeros)
  have m: "mask_fn bm = None" by (simp add: bm_def)
  have n: "tsum (full_kv_num_blocks bm) + tsum (partial_kv_num_blocks bm) = 3"
    using tf tp by simp
  have "sparsity bm = Inr (100 * (1 - real_of_int 3 / real (1 * 1 * 2 * 2)))"
    by (rule sparsity_formula[where kvb = 128 and qb = 128, OF _ _ _ _ _ _ _ _ _ _ _ n])
       (simp_all add: bm_def shape_compressed[OF shF])
  then have "sparsity bm = Inr 25" by simp
  then show ?thesis using b m tf tp by blast
qed

text \<open>
  C5, as stated, fails on both paths of the builder. Built from the causal mask function,
  the BlockMask has two PARTIAL tiles (the two diagonal ones), not one. Built from the
  causal score function, it has three FULL tiles, not one.
\<close>

theorem causal_partial_tiles_counterexample:
  "\<not> isl causal_block_mask
   \<and> tsum (partial_kv_num_blocks (projr causal_block_mask)) \<noteq> 1
   \<and> \<not> isl causal_score_block_mask
   \<and> tsum (full_kv_num_blocks (projr causal_score_block_mask)) \<noteq> 1"
proof -
  from causal_counts obtain bm where b: "causal_block_mask = Inr bm"
    and p: "tsum (partial_kv_num_blocks bm) = 2" by blast
  from causal_score_counts obtain bm' where b': "causal_score_block_mask = Inr bm'"
    and f: "tsum (full_kv_num_blocks bm') = 3" by blast
  show ?thesis unfolding b b' by (simp add: p f)
qed

text \<open>
  C5, as the code has it. The causal dense mask (true iff query index \<ge> key index) over
  256 by 256 positions with block size 128 has four tiles. Built from a mask function, the
  tile below the diagonal is FULL, the two diagonal tiles are PARTIAL and the tile above
  the diagonal is EMPTY (neither FULL nor PARTIAL): one full and two partial tiles are
  counted. Built from a score function (no mask function: the partial grid is absent), the
  three tiles on and below the diagonal are FULL and the tile above it is EMPTY: three full
  tiles and no partial tile are counted. The sparsity is 25 in both cases.
\<close>

theorem causal_block_mask_tiles:
  "(\<exists>full_blocks partial_blocks bm.
      create_mask_from_mask_fn causal_fn 1 1 256 256 = Inr causal_mask
      \<and> convert_mask_to_block_mask causal_mask 128 128 (Some causal_fn)
          = Inr (full_blocks, Some partial_blocks)
      \<and> shape full_blocks = [1, 1, 2, 2] \<and> shape partial_blocks = [1, 1, 2, 2]
      \<and> map (elem full_blocks) [[0, 0, 0, 0], [0, 0, 0, 1], [0, 0, 1, 0], [0, 0, 1, 1]]
          = [0, 0, 1, 0]
      \<and> map (elem partial_blocks) [[0, 0, 0, 0], [0, 0, 0, 1], [0, 0, 1, 0], [0, 0, 1, 1]]
          = [1, 0, 0, 1]
      \<and> create_block_mask causal_fn 1 1 256 256 128 128 = Inr bm
      \<and> mask_fn bm = Some causal_fn
      \<and> tsum (full_kv_num_blocks bm) = 1 \<and> tsum (partial_kv_num_blocks bm) = 2
      \<and> sparsity bm = Inr 25)
   \<and> (\<exists>full_blocks bm.
      create_mask_from_score_mod causal_score_mod 1 1 256 256 = Inr causal_mask
      \<and> convert_mask_to_block_mask causal_mask 128 128 None = Inr (full_blocks, None)
      \<and> shape full_blocks = [1, 1, 2, 2]
      \<and> map (elem full_blocks) [[0, 0, 0, 0], [0, 0, 0, 1], [0, 0, 1, 0], [0, 0, 1, 1]]
          = [1, 0, 1, 1]
      \<and> create_block_mask causal_score_mod 1 1 256 256 128 128 = Inr bm
      \<and> mask_fn bm = None
      \<and> tsum (full_kv_num_blocks bm) = 3 \<and> tsum (partial_kv_num_blocks bm) = 0
      \<and> sparsity bm = Inr 25)"
proof (rule conjI)
  have m: "create_mask_from_mask_fn causal_fn 1 1 256 256 = Inr causal_mask"
    by (simp add: create_mask_from_mask_fn_def causal_fn_def causal_mask_def)
  have sh: "shape (broadcast_to_dim causal_mask 4) = [1, 1, 256, 256]"
    and bid: "broadcast_to_dim causal_mask 4 = causal_mask"
    by (simp_all add: broadcast_to_dim_id dim_def causal_mask_def vmap_grid_def)
  have c: "convert_mask_to_block_mask causal_mask 128 128 (Some causal_fn) =
      Inr (to_int (tmap (\<lambda>s. s = int (128 * 128)) (mask_block_sum 128 128 causal_mask)),
           Some (to_int (tmap (\<lambda>s. 0 < s \<and> s < int (128 * 128))
                   (mask_block_sum 128 128 causal_mask))))"
    using convert_Some[OF sh, of 128 128 causal_fn] by (simp add: bid)
  have c': "convert_mask_to_block_mask causal_mask 128 128 None =
      Inr (to_int (tmap (\<lambda>s. 0 < s) (mask_block_sum 128 128 causal_mask)), None)"
    using convert_None[OF sh, of 128 128] by (simp add: bid)
  from causal_counts obtain bm where
    bm: "create_block_mask causal_fn 1 1 256 256 128 128 = Inr bm"
    "tsum (full_kv_num_blocks bm) = 1" "tsum (partial_kv_num_blocks bm) = 2"
    "sparsity bm = Inr 25"
    unfolding causal_block_mask_def by blast
  have mf: "mask_fn bm = Some causal_fn"
    using bm(1) causal_built by (auto simp: causal_block_mask_def)
  show "\<exists>full_blocks partial_blocks bm.
      create_mask_from_mask_fn causal_fn 1 1 256 256 = Inr causal_mask
      \<and> convert_mask_to_block_mask causal_mask 128 128 (Some causal_fn)
          = Inr (full_blocks, Some partial_blocks)
      \<and> shape full_blocks = [1, 1, 2, 2] \<and> shape partial_blocks = [1, 1, 2, 2]
      \<and> map (elem full_blocks) [[0, 0, 0, 0], [0, 0, 0, 1], [0, 0, 1, 0], [0, 0, 1, 1]]
          = [0, 0, 1, 0]
      \<and> map (elem partial_blocks) [[0, 0, 0, 0], [0, 0, 0, 1], [0, 0, 1, 0], [0, 0, 1, 1]]
          = [1, 0, 0, 1]
      \<and> create_block_mask causal_fn 1 1 256 256 128 128 = Inr bm
      \<and> mask_fn bm = Some causal_fn
      \<and> tsum (full_kv_num_blocks bm) = 1 \<and> tsum (partial_kv_num_blocks bm) = 2
      \<and> sparsity bm = Inr 25"
    by (intro exI conjI) (rule m c causal_grids bm mf)+
  from causal_score_counts obtain bm' where
    bm': "create_block_mask causal_score_mod 1 1 256 256 128 128 = Inr bm'"
    "mask_fn bm' = None"
    "tsum (full_kv_num_blocks bm') = 3" "tsum (partial_kv_num_blocks bm') = 0"
    "sparsity bm' = Inr 25"
    unfolding causal_score_block_mask_def by blast
  show "\<exists>full_blocks bm.
      create_mask_from_score_mod causal_score_mod 1 1 256 256 = Inr causal_mask
      \<and> convert_mask_to_block_mask causal_mask 128 128 None = Inr (full_blocks, None)
      \<and> shape full_blocks = [1, 1, 2, 2]
      \<and> map (elem full_blocks) [[0, 0, 0, 0], [0, 0, 0, 1], [0, 0, 1, 0], [0, 0, 1, 1]]
          = [1, 0, 1, 1]
      \<and> create_block_mask causal_score_mod 1 1 256 256 128 128 = Inr bm
      \<and> mask_fn bm = None
      \<and> tsum (full_kv_num_blocks bm) = 3 \<and> tsum (partial_kv_num_blocks bm) = 0
      \<and> sparsity bm = Inr 25"
    by (intro exI conjI) (rule causal_score_mask c' causal_score_grid bm')+
qed

end
